theory Spec2Isabelle
  imports Main "HOL-Library.Sublist"
begin

section \<open>Tab Groups Manager: the background service's classification engine\<close>

text \<open>
  The model follows the class \<^verbatim>\<open>TabGroupManager\<close> of the background service and the
  message listener registered after it. Each method becomes a function that takes the
  manager's fields and the browser state it touches and returns them updated. Calls to
  \<^verbatim>\<open>LogManager.log\<close> write to a log that no modelled function reads, and are left out.

  The functions are \<^verbatim>\<open>async\<close> in the source. \<open>handleTabUpdate\<close> and the other methods
  are modelled as one call that runs to completion, which is what a caller that awaits
  the call sees. The one loop of the source that starts calls without awaiting them,
  \<^verbatim>\<open>applyPatternsToExistingTabs\<close>, is modelled with the part of each call that runs
  before its first \<^verbatim>\<open>await\<close> and the part that runs after it.
\<close>

subsection \<open>JavaScript strings\<close>

text \<open>\<^verbatim>\<open>s.startsWith(p)\<close>\<close>

definition startsWith :: "string \<Rightarrow> string \<Rightarrow> bool" where
  "startsWith s p = prefix p s"

text \<open>\<^verbatim>\<open>s.indexOf(p)\<close>: the first position where \<open>p\<close> occurs, \<open>None\<close> for \<open>-1\<close>.\<close>

fun indexOf :: "string \<Rightarrow> string \<Rightarrow> nat option" where
  "indexOf [] p = (if p = [] then Some 0 else None)"
| "indexOf (c # cs) p =
     (if prefix p (c # cs) then Some 0 else map_option Suc (indexOf cs p))"

text \<open>\<^verbatim>\<open>s.includes(p)\<close>\<close>

definition str_includes :: "string \<Rightarrow> string \<Rightarrow> bool" where
  "str_includes s p = (indexOf s p \<noteq> None)"

text \<open>
  \<^verbatim>\<open>s.replace(/p/g, r)\<close> for a pattern \<open>p\<close> that is a fixed non-empty text: every
  occurrence, found left to right without overlap, is replaced by \<open>r\<close>. The three
  replacement texts of the source contain no \<^verbatim>\<open>$\<close>, so they are inserted as they are.
\<close>

fun replace_g :: "string \<Rightarrow> string \<Rightarrow> string \<Rightarrow> string" where
  "replace_g p r [] = []"
| "replace_g p r (c # cs) =
     (if p \<noteq> [] \<and> prefix p (c # cs)
      then r @ replace_g p r (drop (length p - 1) cs)
      else c # replace_g p r cs)"

text \<open>
  \<^verbatim>\<open>c.toUpperCase()\<close> on one character. A host name is ASCII, where only the letters
  \<^verbatim>\<open>a\<close> to \<^verbatim>\<open>z\<close> change; every other byte is left as it is.
\<close>

definition toUpperCase_char :: "char \<Rightarrow> char" where
  "toUpperCase_char c =
     (case map_of (zip ''abcdefghijklmnopqrstuvwxyz'' ''ABCDEFGHIJKLMNOPQRSTUVWXYZ'') c of
        Some C \<Rightarrow> C
      | None \<Rightarrow> c)"

subsection \<open>The host environment\<close>

text \<open>
  The source uses the regular expressions and the URL parser of the JavaScript runtime,
  whose code is not part of the repository. They are parameters of the model:
  \<^item> \<open>RegExp\<close>: \<^verbatim>\<open>new RegExp(text)\<close>, \<open>None\<close> when the constructor throws a SyntaxError;
  \<^item> \<open>exec\<close>: \<^verbatim>\<open>domain.match(regex)\<close> for a regular expression without flags: \<open>None\<close>
    for \<^verbatim>\<open>null\<close>, otherwise the array of the whole match followed by the capture groups,
    a group that took no part being \<^verbatim>\<open>undefined\<close> (\<open>None\<close>);
  \<^item> \<open>source\<close>: \<^verbatim>\<open>regex.source\<close>;
  \<^item> \<open>hostname\<close>: \<^verbatim>\<open>new URL(url).hostname\<close>, \<open>None\<close> when the constructor throws a TypeError.
\<close>

record 'r runtime =
  RegExp :: "string \<Rightarrow> 'r option"
  exec :: "'r \<Rightarrow> string \<Rightarrow> string option list option"
  source :: "'r \<Rightarrow> string"
  hostname :: "string \<Rightarrow> string option"

text \<open>\<^verbatim>\<open>regex.test(s)\<close>\<close>

definition test :: "'r runtime \<Rightarrow> 'r \<Rightarrow> string \<Rightarrow> bool" where
  "test env r s = (exec env r s \<noteq> None)"

text \<open>\<^verbatim>\<open>match[i]\<close>: reading past the end of an array gives \<^verbatim>\<open>undefined\<close>.\<close>

definition array_get :: "string option list \<Rightarrow> nat \<Rightarrow> string option" where
  "array_get arr i = (if i < length arr then arr ! i else None)"

datatype error = Error string | SyntaxError | TypeError

subsection \<open>Data model\<close>

record 'r DomainPattern =
  pattern :: 'r
  groupName :: string
  color :: "string option"

record StoredPattern =
  patternStr :: string
  sp_groupName :: string
  sp_color :: "string option"

record 'r AutoPattern =
  template :: string
  regex :: 'r
  namePosition :: nat

text \<open>The objects that \<^verbatim>\<open>saveSettings\<close> writes for the auto-patterns.\<close>

record StoredAutoPattern =
  sa_template :: string
  regexStr :: string
  sa_namePosition :: nat

record 'r TabGroupManager =
  domainPatterns :: "'r DomainPattern list"
  enableAutoPatterns :: bool
  autoPatterns :: "'r AutoPattern list"
  autoPatternCache :: "string \<rightharpoonup> string"
  processedUrls :: "string \<rightharpoonup> string"

text \<open>
  A \<^verbatim>\<open>chrome.tabs.Tab\<close>: \<open>tab_id\<close> and \<open>url\<close> are optional fields of the browser's type.
\<close>

record Tab =
  tab_id :: "nat option"
  url :: "string option"
  groupId :: int

definition TAB_GROUP_ID_NONE :: int where
  "TAB_GROUP_ID_NONE = - 1"

text \<open>
  The browser: the three keys of \<^verbatim>\<open>chrome.storage.local\<close> that the service uses (a key
  that was never written is \<open>None\<close>), and the group assignments requested so far. One call
  of \<^verbatim>\<open>addTabToGroup(tabId, groupName, color)\<close> is one request; what the browser does with
  it (finding or creating the group in the current window) is outside the model.
\<close>

record chrome =
  storage_domainPatterns :: "StoredPattern list option"
  storage_enableAutoPatterns :: "bool option"
  storage_autoPatterns :: "StoredAutoPattern list option"
  groupRequests :: "(nat \<times> string \<times> string option) list"

subsection \<open>Compiling a template\<close>

text \<open>The text that \<^verbatim>\<open>createAutoPattern\<close> hands to \<^verbatim>\<open>new RegExp\<close>.\<close>

definition regexStr_of :: "string \<Rightarrow> string" where
  "regexStr_of t =
     replace_g '':name'' ''([^.]+)''
       (replace_g ''*'' ''[^.]+''
         (replace_g ''.'' [CHR 0x5C, CHR ''.''] t))"

definition createAutoPattern :: "'r runtime \<Rightarrow> string \<Rightarrow> error + 'r AutoPattern" where
  "createAutoPattern env t =
     (case indexOf t '':name'' of
        None \<Rightarrow> Inl (Error ''Template must contain a :name placeholder'')
      | Some nameIdx \<Rightarrow>
          (case RegExp env (''^'' @ regexStr_of t @ ''$'') of
             None \<Rightarrow> Inl SyntaxError
           | Some r \<Rightarrow> Inr \<lparr>template = t, regex = r, namePosition = 1\<rparr>))"

subsection \<open>Matching\<close>

fun matchAutoPattern :: "'r runtime \<Rightarrow> 'r AutoPattern list \<Rightarrow> string \<Rightarrow> string option" where
  "matchAutoPattern env [] domain = None"
| "matchAutoPattern env (p # ps) domain =
     (case exec env (regex p) domain of
        None \<Rightarrow> matchAutoPattern env ps domain
      | Some m \<Rightarrow>
          (case array_get m (namePosition p) of
             None \<Rightarrow> matchAutoPattern env ps domain
           | Some [] \<Rightarrow> matchAutoPattern env ps domain
           | Some (c # cs) \<Rightarrow> Some (toUpperCase_char c # cs)))"

definition addTabToGroup :: "nat \<Rightarrow> string \<Rightarrow> string option \<Rightarrow> chrome \<Rightarrow> chrome" where
  "addTabToGroup tabId name col w = w\<lparr>groupRequests := groupRequests w @ [(tabId, name, col)]\<rparr>"

text \<open>
  \<^verbatim>\<open>handleTabUpdate\<close>. \<^verbatim>\<open>!tab.url\<close> holds for a missing and for an empty URL, \<^verbatim>\<open>!tab.id\<close>
  for a missing id and for the id 0. A TypeError of \<^verbatim>\<open>new URL\<close> is caught by the
  method's own \<^verbatim>\<open>try\<close> and leaves everything as it was.
\<close>

definition handleTabUpdate ::
  "'r runtime \<Rightarrow> Tab \<Rightarrow> 'r TabGroupManager \<times> chrome \<Rightarrow> 'r TabGroupManager \<times> chrome" where
  "handleTabUpdate env tab = (\<lambda>(m, w).
     if groupId tab \<noteq> TAB_GROUP_ID_NONE then (m, w)
     else case (url tab, tab_id tab) of
       (Some u, Some i) \<Rightarrow>
         if u = [] \<or> i = 0 then (m, w)
         else if startsWith u ''chrome://'' \<or> startsWith u ''brave://'' then (m, w)
         else (case processedUrls m u of
           Some cachedGroupName \<Rightarrow>
             if cachedGroupName \<noteq> [] then (m, addTabToGroup i cachedGroupName None w)
             else (m, w)
         | None \<Rightarrow>
             (case hostname env u of
                None \<Rightarrow> (m, w)
              | Some domain \<Rightarrow>
                  (case find (\<lambda>p. test env (pattern p) domain) (domainPatterns m) of
                     Some p \<Rightarrow>
                       (m\<lparr>processedUrls := (processedUrls m)(u \<mapsto> groupName p)\<rparr>,
                        addTabToGroup i (groupName p) (color p) w)
                   | None \<Rightarrow>
                       (case (if enableAutoPatterns m
                              then matchAutoPattern env (autoPatterns m) domain else None) of
                          Some (g # gs) \<Rightarrow>
                            (m\<lparr>autoPatternCache := (autoPatternCache m)(domain \<mapsto> g # gs),
                               processedUrls := (processedUrls m)(u \<mapsto> g # gs)\<rparr>,
                             addTabToGroup i (g # gs) None w)
                        | _ \<Rightarrow> (m\<lparr>processedUrls := (processedUrls m)(u \<mapsto> [])\<rparr>, w)))))
     | _ \<Rightarrow> (m, w))"

subsection \<open>Persisting the configuration\<close>

definition clearUrlCache :: "'r TabGroupManager \<Rightarrow> 'r TabGroupManager" where
  "clearUrlCache m = m\<lparr>processedUrls := Map.empty\<rparr>"

definition savePatterns :: "'r runtime \<Rightarrow> 'r TabGroupManager \<Rightarrow> chrome \<Rightarrow> chrome" where
  "savePatterns env m w =
     w\<lparr>storage_domainPatterns :=
         Some (map (\<lambda>p. \<lparr>patternStr = source env (pattern p),
                          sp_groupName = groupName p, sp_color = color p\<rparr>)
                   (domainPatterns m))\<rparr>"

definition saveSettings :: "'r runtime \<Rightarrow> 'r TabGroupManager \<Rightarrow> chrome \<Rightarrow> chrome" where
  "saveSettings env m w =
     w\<lparr>storage_autoPatterns :=
         Some (map (\<lambda>p. \<lparr>sa_template = template p, regexStr = source env (regex p),
                          sa_namePosition = namePosition p\<rparr>)
                   (autoPatterns m)),
       storage_enableAutoPatterns := Some (enableAutoPatterns m)\<rparr>"

text \<open>
  The two \<^verbatim>\<open>map\<close> calls of \<^verbatim>\<open>loadPatternsFromStorage\<close>, one element each: the element is
  \<open>None\<close> when \<^verbatim>\<open>new RegExp\<close> throws.
\<close>

definition loadDomainPattern :: "'r runtime \<Rightarrow> StoredPattern \<Rightarrow> 'r DomainPattern option" where
  "loadDomainPattern env p =
     map_option (\<lambda>r. \<lparr>pattern = r, groupName = sp_groupName p, color = sp_color p\<rparr>)
       (RegExp env (patternStr p))"

definition loadAutoPattern :: "'r runtime \<Rightarrow> StoredAutoPattern \<Rightarrow> 'r AutoPattern option" where
  "loadAutoPattern env p =
     map_option (\<lambda>r. \<lparr>template = sa_template p, regex = r, namePosition = sa_namePosition p\<rparr>)
       (RegExp env (regexStr p))"

text \<open>
  \<^verbatim>\<open>loadPatternsFromStorage\<close> together with the callback it passes to
  \<^verbatim>\<open>chrome.storage.local.get\<close>. The second component is the exception that ended the
  method or its callback early, if any: the default template failing to compile, or a
  stored manual pattern failing to compile (nothing catches that one, and the rest of
  the callback does not run). A stored auto-pattern that fails to compile is caught and
  replaced by the default. The call of \<^verbatim>\<open>applyAutoPatternToExistingTabs\<close> that ends the
  callback is modelled on its own below.
\<close>

definition loadPatternsFromStorage ::
  "'r runtime \<Rightarrow> chrome \<Rightarrow> 'r TabGroupManager \<Rightarrow> 'r TabGroupManager \<times> error option" where
  "loadPatternsFromStorage env w m =
     (let m0 = m\<lparr>domainPatterns := []\<rparr> in
      case createAutoPattern env '':name.*'' of
        Inl e \<Rightarrow> (m0, Some e)
      | Inr dflt \<Rightarrow>
          (let m1 = m0\<lparr>autoPatterns := [dflt]\<rparr> in
           case (case storage_domainPatterns w of
                   None \<Rightarrow> Some (domainPatterns m1)
                 | Some sps \<Rightarrow> those (map (loadDomainPattern env) sps)) of
             None \<Rightarrow> (m1, Some SyntaxError)
           | Some dps \<Rightarrow>
               (let m2 = m1\<lparr>domainPatterns := dps,
                             enableAutoPatterns :=
                               (case storage_enableAutoPatterns w of
                                  None \<Rightarrow> enableAutoPatterns m1 | Some b \<Rightarrow> b)\<rparr> in
                case storage_autoPatterns w of
                  None \<Rightarrow> (m2, None)
                | Some [] \<Rightarrow> (m2, None)
                | Some (sa # sas) \<Rightarrow>
                    (case those (map (loadAutoPattern env) (sa # sas)) of
                       Some aps \<Rightarrow> (m2\<lparr>autoPatterns := aps\<rparr>, None)
                     | None \<Rightarrow>
                         (case createAutoPattern env '':name.*'' of
                            Inr d \<Rightarrow> (m2\<lparr>autoPatterns := [d]\<rparr>, None)
                          | Inl e \<Rightarrow> (m2, Some e))))))"

subsection \<open>Changing the configuration\<close>

text \<open>
  Each method below is modelled up to the point where it hands control back to the event
  loop. \<^verbatim>\<open>addPattern\<close>, \<^verbatim>\<open>addAutoPattern\<close> and \<^verbatim>\<open>setAutoPatterns\<close> end by starting
  \<^verbatim>\<open>applyPatternsToExistingTabs\<close> or \<^verbatim>\<open>applyAutoPatternToExistingTabs\<close>, which first await
  the browser's list of tabs; those two are modelled on their own below and run after the
  method has returned, on the manager as the method left it.
\<close>

definition addPattern ::
  "'r runtime \<Rightarrow> string \<Rightarrow> string \<Rightarrow> string option \<Rightarrow> 'r TabGroupManager \<times> chrome
     \<Rightarrow> 'r TabGroupManager \<times> chrome" where
  "addPattern env pStr name col = (\<lambda>(m, w).
     case RegExp env pStr of
       None \<Rightarrow> (m, w)
     | Some r \<Rightarrow>
         (let m1 = m\<lparr>domainPatterns :=
                       domainPatterns m @ [\<lparr>pattern = r, groupName = name, color = col\<rparr>]\<rparr>
          in (clearUrlCache m1, savePatterns env m1 w)))"

definition addAutoPattern ::
  "'r runtime \<Rightarrow> string \<Rightarrow> 'r TabGroupManager \<times> chrome
     \<Rightarrow> bool \<times> 'r TabGroupManager \<times> chrome" where
  "addAutoPattern env t = (\<lambda>(m, w).
     if \<not> str_includes t '':name'' then (False, m, w)
     else if list_ex (\<lambda>p. template p = t) (autoPatterns m) then (False, m, w)
     else case createAutoPattern env t of
       Inl e \<Rightarrow> (False, m, w)
     | Inr autoPattern \<Rightarrow>
         (let m1 = m\<lparr>autoPatterns := autoPatterns m @ [autoPattern]\<rparr>
          in (True, clearUrlCache m1, saveSettings env m1 w)))"

definition removeAutoPattern ::
  "'r runtime \<Rightarrow> string \<Rightarrow> 'r TabGroupManager \<times> chrome
     \<Rightarrow> bool \<times> 'r TabGroupManager \<times> chrome" where
  "removeAutoPattern env t = (\<lambda>(m, w).
     let initialLength = length (autoPatterns m);
         m1 = m\<lparr>autoPatterns := filter (\<lambda>p. template p \<noteq> t) (autoPatterns m)\<rparr>
     in if length (autoPatterns m1) < initialLength
        then (True, (clearUrlCache m1)\<lparr>autoPatternCache := Map.empty\<rparr>, saveSettings env m1 w)
        else (False, m1, w))"

definition setAutoPatterns ::
  "'r runtime \<Rightarrow> bool \<Rightarrow> 'r TabGroupManager \<times> chrome \<Rightarrow> 'r TabGroupManager \<times> chrome" where
  "setAutoPatterns env enabled = (\<lambda>(m, w).
     let m1 = m\<lparr>enableAutoPatterns := enabled\<rparr>
     in (clearUrlCache m1, saveSettings env m1 w))"

definition getAutoPatternTemplates :: "'r TabGroupManager \<Rightarrow> string list" where
  "getAutoPatternTemplates m = map template (autoPatterns m)"

definition getAutoPatterns :: "'r TabGroupManager \<Rightarrow> bool" where
  "getAutoPatterns m = enableAutoPatterns m"

subsection \<open>Processing the existing tabs\<close>

text \<open>
  \<^verbatim>\<open>applyPatternsToExistingTabs\<close> calls \<^verbatim>\<open>handleTabUpdate\<close> for every tab of the browser's
  list and does not await the calls. Each call therefore runs up to its first \<^verbatim>\<open>await\<close>,
  which is the \<^verbatim>\<open>await\<close> of \<^verbatim>\<open>addTabToGroup\<close>, before the loop goes on with the next tab,
  and what stands behind that \<^verbatim>\<open>await\<close> runs after the loop. Only the branch of a manual
  pattern has something behind it: the write of the group name to the URL cache.

  \<open>handleTabUpdate_until_await\<close> is that first part of a call; its second component is
  the write to the URL cache that is still to come, if any. \<open>resume\<close> performs such a
  write.
\<close>

definition handleTabUpdate_until_await ::
  "'r runtime \<Rightarrow> Tab \<Rightarrow> 'r TabGroupManager \<times> chrome
     \<Rightarrow> ('r TabGroupManager \<times> chrome) \<times> (string \<times> string) option" where
  "handleTabUpdate_until_await env tab = (\<lambda>(m, w).
     if groupId tab \<noteq> TAB_GROUP_ID_NONE then ((m, w), None)
     else case (url tab, tab_id tab) of
       (Some u, Some i) \<Rightarrow>
         if u = [] \<or> i = 0 then ((m, w), None)
         else if startsWith u ''chrome://'' \<or> startsWith u ''brave://'' then ((m, w), None)
         else (case processedUrls m u of
           Some cachedGroupName \<Rightarrow>
             if cachedGroupName \<noteq> [] then ((m, addTabToGroup i cachedGroupName None w), None)
             else ((m, w), None)
         | None \<Rightarrow>
             (case hostname env u of
                None \<Rightarrow> ((m, w), None)
              | Some domain \<Rightarrow>
                  (case find (\<lambda>p. test env (pattern p) domain) (domainPatterns m) of
                     Some p \<Rightarrow>
                       ((m, addTabToGroup i (groupName p) (color p) w), Some (u, groupName p))
                   | None \<Rightarrow>
                       (case (if enableAutoPatterns m
                              then matchAutoPattern env (autoPatterns m) domain else None) of
                          Some (g # gs) \<Rightarrow>
                            ((m\<lparr>autoPatternCache := (autoPatternCache m)(domain \<mapsto> g # gs),
                                processedUrls := (processedUrls m)(u \<mapsto> g # gs)\<rparr>,
                              addTabToGroup i (g # gs) None w), None)
                        | _ \<Rightarrow> ((m\<lparr>processedUrls := (processedUrls m)(u \<mapsto> [])\<rparr>, w), None)))))
     | _ \<Rightarrow> ((m, w), None))"

definition resume :: "string \<times> string \<Rightarrow> 'r TabGroupManager \<Rightarrow> 'r TabGroupManager" where
  "resume = (\<lambda>(u, name) m. m\<lparr>processedUrls := (processedUrls m)(u \<mapsto> name)\<rparr>)"

text \<open>
  The \<^verbatim>\<open>for\<close> statement of \<^verbatim>\<open>applyPatternsToExistingTabs\<close>: the first parts of the calls,
  one tab after the other, with the writes they leave behind in the order of the tabs.
\<close>

fun applyPatterns_loop ::
  "'r runtime \<Rightarrow> Tab list \<Rightarrow> 'r TabGroupManager \<times> chrome
     \<Rightarrow> ('r TabGroupManager \<times> chrome) \<times> (string \<times> string) list" where
  "applyPatterns_loop env [] s = (s, [])"
| "applyPatterns_loop env (tab # tabs) s =
     (case handleTabUpdate_until_await env tab s of
        (s', pending) \<Rightarrow>
          (case applyPatterns_loop env tabs s' of
             (s'', later) \<Rightarrow>
               (s'', (case pending of None \<Rightarrow> [] | Some x \<Rightarrow> [x]) @ later)))"

text \<open>
  \<^verbatim>\<open>applyPatternsToExistingTabs\<close> with the writes performed once the loop has ended. The
  configuration is the same for all of them, so a URL gets the same name from each and
  the order in which the browser lets them resume does not matter; they are taken in
  the order of the tabs.
\<close>

definition applyPatternsToExistingTabs ::
  "'r runtime \<Rightarrow> Tab list \<Rightarrow> 'r TabGroupManager \<times> chrome \<Rightarrow> 'r TabGroupManager \<times> chrome" where
  "applyPatternsToExistingTabs env tabs s =
     (case applyPatterns_loop env tabs s of
        ((m, w), pending) \<Rightarrow> (fold resume pending m, w))"

text \<open>
  The loop of \<^verbatim>\<open>applyAutoPatternToExistingTabs\<close> and of \<^verbatim>\<open>applyAutoPatternsToTabs\<close>. A URL
  that \<^verbatim>\<open>new URL\<close> rejects ends the loop: the exception leaves the \<^verbatim>\<open>for\<close> statement.
\<close>

fun applyAutoPattern_loop ::
  "'r runtime \<Rightarrow> Tab list \<Rightarrow> 'r TabGroupManager \<times> chrome \<Rightarrow> 'r TabGroupManager \<times> chrome" where
  "applyAutoPattern_loop env [] (m, w) = (m, w)"
| "applyAutoPattern_loop env (tab # tabs) (m, w) =
     (case (url tab, tab_id tab) of
        (Some u, Some i) \<Rightarrow>
          if u = [] \<or> i = 0 then applyAutoPattern_loop env tabs (m, w)
          else (case hostname env u of
             None \<Rightarrow> (m, w)
           | Some domain \<Rightarrow>
               (case find (\<lambda>p. test env (pattern p) domain) (domainPatterns m) of
                  Some p \<Rightarrow> applyAutoPattern_loop env tabs (m, w)
                | None \<Rightarrow>
                    (case matchAutoPattern env (autoPatterns m) domain of
                       Some (g # gs) \<Rightarrow>
                         applyAutoPattern_loop env tabs
                           (m\<lparr>autoPatternCache := (autoPatternCache m)(domain \<mapsto> g # gs)\<rparr>,
                            addTabToGroup i (g # gs) None w)
                     | _ \<Rightarrow> applyAutoPattern_loop env tabs (m, w))))
      | _ \<Rightarrow> applyAutoPattern_loop env tabs (m, w))"

definition applyAutoPatternToExistingTabs ::
  "'r runtime \<Rightarrow> Tab list \<Rightarrow> 'r TabGroupManager \<times> chrome \<Rightarrow> 'r TabGroupManager \<times> chrome" where
  "applyAutoPatternToExistingTabs env tabs = (\<lambda>(m, w).
     if \<not> enableAutoPatterns m then (m, w) else applyAutoPattern_loop env tabs (m, w))"

definition applyAutoPatternsToTabs ::
  "'r runtime \<Rightarrow> Tab list \<Rightarrow> 'r TabGroupManager \<times> chrome \<Rightarrow> 'r TabGroupManager \<times> chrome" where
  "applyAutoPatternsToTabs env tabs = (\<lambda>(m, w).
     if \<not> enableAutoPatterns m then (m, w) else applyAutoPattern_loop env tabs (m, w))"

text \<open>
  \<^verbatim>\<open>groupAllExistingTabs\<close>: the filter for ungrouped tabs, the body of the loop for one
  tab (the state carries \<^verbatim>\<open>groupedCount\<close>), and the method. An exception in the body is
  caught inside the loop, which goes on with the next tab.
\<close>

definition ungrouped :: "Tab \<Rightarrow> bool" where
  "ungrouped tab =
     (groupId tab = TAB_GROUP_ID_NONE \<and>
      (case url tab of
         None \<Rightarrow> False
       | Some u \<Rightarrow> u \<noteq> [] \<and> \<not> str_includes u ''chrome://'' \<and> \<not> str_includes u ''brave://''))"

definition groupTab ::
  "'r runtime \<Rightarrow> Tab \<Rightarrow> ('r TabGroupManager \<times> chrome) \<times> nat
     \<Rightarrow> ('r TabGroupManager \<times> chrome) \<times> nat" where
  "groupTab env tab = (\<lambda>((m, w), groupedCount).
     case (url tab, tab_id tab) of
       (Some u, Some i) \<Rightarrow>
         if u = [] \<or> i = 0 then ((m, w), groupedCount)
         else (case hostname env u of
            None \<Rightarrow> ((m, w), groupedCount)
          | Some domain \<Rightarrow>
              if domain = [] then ((m, w), groupedCount)
              else (case find (\<lambda>p. test env (pattern p) domain) (domainPatterns m) of
                 Some matchingPattern \<Rightarrow>
                   ((m, addTabToGroup i (groupName matchingPattern) (color matchingPattern) w),
                    groupedCount + 1)
               | None \<Rightarrow>
                   if enableAutoPatterns m then
                     (case autoPatternCache m domain of
                        Some (g # gs) \<Rightarrow> ((m, addTabToGroup i (g # gs) None w), groupedCount + 1)
                      | _ \<Rightarrow>
                          (case matchAutoPattern env (autoPatterns m) domain of
                             Some (g # gs) \<Rightarrow>
                               ((m\<lparr>autoPatternCache := (autoPatternCache m)(domain \<mapsto> g # gs)\<rparr>,
                                 addTabToGroup i (g # gs) None w),
                                groupedCount + 1)
                           | _ \<Rightarrow> ((m, w), groupedCount)))
                   else ((m, w), groupedCount)))
     | _ \<Rightarrow> ((m, w), groupedCount))"

definition groupAllExistingTabs ::
  "'r runtime \<Rightarrow> Tab list \<Rightarrow> 'r TabGroupManager \<times> chrome
     \<Rightarrow> ('r TabGroupManager \<times> chrome) \<times> nat" where
  "groupAllExistingTabs env tabs s = fold (groupTab env) (filter ungrouped tabs) (s, 0)"

subsection \<open>The message listener\<close>

text \<open>
  The requests of the popup that change the configuration or read it back, and the
  response each one gets. The listener answers before the \<^verbatim>\<open>setTimeout\<close> callbacks that it
  schedules run; they call \<^verbatim>\<open>applyAutoPatternsToTabs\<close>, modelled above.
\<close>

datatype message =
    GetAutoPatternTemplates
  | GetAutoPatterns
  | AddAutoPattern string
  | AddPattern string string "string option"
  | SetAutoPatterns bool
  | RemoveAutoPattern string

datatype response =
    Templates "string list"
  | Enabled bool
  | Success bool
  | Failed string

fun onMessage ::
  "'r runtime \<Rightarrow> message \<Rightarrow> 'r TabGroupManager \<times> chrome
     \<Rightarrow> response \<times> 'r TabGroupManager \<times> chrome" where
  "onMessage env GetAutoPatternTemplates (m, w) = (Templates (getAutoPatternTemplates m), m, w)"
| "onMessage env GetAutoPatterns (m, w) = (Enabled (getAutoPatterns m), m, w)"
| "onMessage env (AddAutoPattern t) (m, w) =
     (if t = [] then (Failed ''Invalid template format'', m, w)
      else if \<not> str_includes t '':name'' then (Failed ''Invalid template format'', m, w)
      else (case addAutoPattern env t (m, w) of
              (success, m', w') \<Rightarrow>
                (let wasAdded = (t \<in> set (getAutoPatternTemplates m'))
                 in (Success wasAdded, m', w'))))"
| "onMessage env (AddPattern pStr name col) (m, w) =
     (case addPattern env pStr name col (m, w) of (m', w') \<Rightarrow> (Success True, m', w'))"
| "onMessage env (SetAutoPatterns enabled) (m, w) =
     (case setAutoPatterns env enabled (m, w) of (m', w') \<Rightarrow> (Success True, m', w'))"
| "onMessage env (RemoveAutoPattern t) (m, w) =
     (case removeAutoPattern env t (m, w) of
        (success, m', w') \<Rightarrow>
          (let wasRemoved = (t \<notin> set (getAutoPatternTemplates m'))
           in (Success wasRemoved, m', w')))"

subsection \<open>A fragment of the runtime's regular expressions\<close>

text \<open>
  To run the model on examples, the regular expressions that \<^verbatim>\<open>createAutoPattern\<close>
  produces are given their JavaScript meaning. A pattern of the fragment is an optional
  \<^verbatim>\<open>^\<close>, a sequence of items and an optional final \<^verbatim>\<open>$\<close>; an item is an ordinary
  character, a syntax character (or \<^verbatim>\<open>/\<close>) after a backslash, \<^verbatim>\<open>[^.]+\<close>, or the capturing
  group \<^verbatim>\<open>([^.]+)\<close>. Every text outside the fragment is rejected by \<open>RegExp_frag\<close>, also
  where the browser would accept it, so a statement about all pattern texts is made
  for an arbitrary runtime and not for this one.
\<close>

datatype atom = Chr char | NonDots | Name

record regexp =
  from_start :: bool
  atoms :: "atom list"
  to_end :: bool

definition syntax_char :: "char \<Rightarrow> bool" where
  "syntax_char c = (c \<in> set (CHR 0x5C # ''^$.*+?()[]{}|''))"

fun parse_atoms :: "string \<Rightarrow> (atom list \<times> bool) option" where
  "parse_atoms [] = Some ([], False)"
| "parse_atoms (c # cs) =
     (if c # cs = ''$'' then Some ([], True)
      else if prefix ''([^.]+)'' (c # cs)
        then map_option (apfst ((#) Name)) (parse_atoms (drop 6 cs))
      else if prefix ''[^.]+'' (c # cs)
        then map_option (apfst ((#) NonDots)) (parse_atoms (drop 4 cs))
      else if c = CHR 0x5C
        then (case cs of
                [] \<Rightarrow> None
              | d # ds \<Rightarrow>
                  if syntax_char d \<or> d = CHR ''/''
                  then map_option (apfst ((#) (Chr d))) (parse_atoms ds) else None)
      else if syntax_char c \<or> c = CHR 0x0A \<or> c = CHR 0x0D then None
      else map_option (apfst ((#) (Chr c))) (parse_atoms cs))"

text \<open>\<^verbatim>\<open>new RegExp(text)\<close>; the text \<^verbatim>\<open>(?:)\<close> is what \<^verbatim>\<open>source\<close> gives for the empty pattern.\<close>

definition RegExp_frag :: "string \<Rightarrow> regexp option" where
  "RegExp_frag s =
     (if s = ''(?:)'' then Some \<lparr>from_start = False, atoms = [], to_end = False\<rparr>
      else case s of
        c # cs \<Rightarrow>
          if c = CHR ''^''
          then map_option (\<lambda>(as, e). \<lparr>from_start = True, atoms = as, to_end = e\<rparr>) (parse_atoms cs)
          else map_option (\<lambda>(as, e). \<lparr>from_start = False, atoms = as, to_end = e\<rparr>)
                 (parse_atoms (c # cs))
      | [] \<Rightarrow> Some \<lparr>from_start = False, atoms = [], to_end = False\<rparr>)"

text \<open>\<^verbatim>\<open>regex.source\<close>: the pattern text, with \<^verbatim>\<open>/\<close> escaped.\<close>

fun atom_source :: "atom \<Rightarrow> string" where
  "atom_source (Chr c) = (if syntax_char c \<or> c = CHR ''/'' then [CHR 0x5C, c] else [c])"
| "atom_source NonDots = ''[^.]+''"
| "atom_source Name = ''([^.]+)''"

definition source_frag :: "regexp \<Rightarrow> string" where
  "source_frag r =
     (let s = (if from_start r then ''^'' else []) @ concat (map atom_source (atoms r))
              @ (if to_end r then ''$'' else [])
      in if s = [] then ''(?:)'' else s)"

text \<open>
  Matching at the start of a text. \<^verbatim>\<open>[^.]+\<close> is greedy: it first takes every character
  up to the next dot, and gives characters back one at a time while the rest of the
  pattern fails. The result is the number of characters matched and the captures of
  the first way that succeeds.
\<close>

fun backtrack :: "(string \<Rightarrow> 'a option) \<Rightarrow> string \<Rightarrow> nat \<Rightarrow> (nat \<times> 'a) option" where
  "backtrack k s 0 = None"
| "backtrack k s (Suc n) =
     (case k (drop (Suc n) s) of Some r \<Rightarrow> Some (Suc n, r) | None \<Rightarrow> backtrack k s n)"

definition run :: "string \<Rightarrow> nat" where
  "run s = length (takeWhile (\<lambda>c. c \<noteq> CHR ''.'') s)"

fun match_atoms :: "atom list \<Rightarrow> bool \<Rightarrow> string \<Rightarrow> (nat \<times> string option list) option" where
  "match_atoms [] e s = (if e \<and> s \<noteq> [] then None else Some (0, []))"
| "match_atoms (Chr c # as) e s =
     (case s of
        [] \<Rightarrow> None
      | x # xs \<Rightarrow>
          if x = c then map_option (\<lambda>(n, caps). (Suc n, caps)) (match_atoms as e xs) else None)"
| "match_atoms (NonDots # as) e s =
     map_option (\<lambda>(k, n, caps). (k + n, caps)) (backtrack (match_atoms as e) s (run s))"
| "match_atoms (Name # as) e s =
     map_option (\<lambda>(k, n, caps). (k + n, Some (take k s) # caps))
       (backtrack (match_atoms as e) s (run s))"

text \<open>Without \<^verbatim>\<open>^\<close> the match may start at any position; the leftmost one wins.\<close>

fun scan :: "atom list \<Rightarrow> bool \<Rightarrow> string \<Rightarrow> string option list option" where
  "scan as e [] = map_option (\<lambda>(n, caps). Some [] # caps) (match_atoms as e [])"
| "scan as e (c # cs) =
     (case match_atoms as e (c # cs) of
        Some (n, caps) \<Rightarrow> Some (Some (take n (c # cs)) # caps)
      | None \<Rightarrow> scan as e cs)"

definition exec_frag :: "regexp \<Rightarrow> string \<Rightarrow> string option list option" where
  "exec_frag r s =
     (if from_start r
      then map_option (\<lambda>(n, caps). Some (take n s) # caps) (match_atoms (atoms r) (to_end r) s)
      else scan (atoms r) (to_end r) s)"

text \<open>
  A stand-in for \<^verbatim>\<open>new URL(url).hostname\<close> on the URLs of the examples, which have the
  shape \<^verbatim>\<open>scheme://host/path\<close> with a lower-case host, no credentials and no port: the
  host is the text after \<^verbatim>\<open>://\<close> up to the next delimiter.
\<close>

definition hostname_simple :: "string \<Rightarrow> string option" where
  "hostname_simple u =
     (case indexOf u ''://'' of
        None \<Rightarrow> None
      | Some i \<Rightarrow> Some (takeWhile (\<lambda>c. c \<notin> set ''/?#:'') (drop (i + 3) u)))"

definition js :: "regexp runtime" where
  "js = \<lparr>RegExp = RegExp_frag, exec = exec_frag, source = source_frag,
         hostname = hostname_simple\<rparr>"

subsection \<open>States used in the examples\<close>

text \<open>
  The manager as its field initialisers leave it, a browser with empty storage, and the
  manager after the constructor has loaded from that storage.
\<close>

definition new_manager :: "regexp TabGroupManager" where
  "new_manager = \<lparr>domainPatterns = [], enableAutoPatterns = True, autoPatterns = [],
                   autoPatternCache = Map.empty, processedUrls = Map.empty\<rparr>"

definition new_browser :: chrome where
  "new_browser = \<lparr>storage_domainPatterns = None, storage_enableAutoPatterns = None,
                   storage_autoPatterns = None, groupRequests = []\<rparr>"

definition started :: "regexp TabGroupManager" where
  "started = fst (loadPatternsFromStorage js new_browser new_manager)"

text \<open>The manual pattern \<^verbatim>\<open>github\.com\<close> of the README, for the group GitHub.\<close>

definition github_text :: string where
  "github_text = ''github'' @ CHR 0x5C # ''.com''"

definition github_pattern :: "regexp DomainPattern" where
  "github_pattern =
     \<lparr>pattern = \<lparr>from_start = False, atoms = map Chr ''github.com'', to_end = False\<rparr>,
      groupName = ''GitHub'', color = Some ''blue''\<rparr>"

definition with_github :: "regexp TabGroupManager \<times> chrome" where
  "with_github = addPattern js github_text ''GitHub'' (Some ''blue'') (started, new_browser)"

text \<open>
  Three manual patterns added in this order: \<^verbatim>\<open>gitlab\.com\<close> for GitLab,
  \<^verbatim>\<open>github\.com\<close> for GitHub and \<^verbatim>\<open>github\<close> for Hub.
\<close>

definition gitlab_text :: string where
  "gitlab_text = ''gitlab'' @ CHR 0x5C # ''.com''"

definition gitlab_pattern :: "regexp DomainPattern" where
  "gitlab_pattern =
     \<lparr>pattern = \<lparr>from_start = False, atoms = map Chr ''gitlab.com'', to_end = False\<rparr>,
      groupName = ''GitLab'', color = Some ''orange''\<rparr>"

definition hub_pattern :: "regexp DomainPattern" where
  "hub_pattern =
     \<lparr>pattern = \<lparr>from_start = False, atoms = map Chr ''github'', to_end = False\<rparr>,
      groupName = ''Hub'', color = None\<rparr>"

definition with_three :: "regexp TabGroupManager \<times> chrome" where
  "with_three =
     addPattern js ''github'' ''Hub'' None
       (addPattern js github_text ''GitHub'' (Some ''blue'')
         (addPattern js gitlab_text ''GitLab'' (Some ''orange'') (started, new_browser)))"

definition tab_github :: Tab where
  "tab_github = \<lparr>tab_id = Some 7, url = Some ''https://github.com/harvmaster'',
                  groupId = TAB_GROUP_ID_NONE\<rparr>"

text \<open>A second tab on the same URL as \<open>tab_github\<close>.\<close>

definition tab_github_again :: Tab where
  "tab_github_again = \<lparr>tab_id = Some 11, url = Some ''https://github.com/harvmaster'',
                        groupId = TAB_GROUP_ID_NONE\<rparr>"


definition tab_gitlab :: Tab where
  "tab_gitlab = \<lparr>tab_id = Some 8, url = Some ''https://gitlab.com/explore'',
                  groupId = TAB_GROUP_ID_NONE\<rparr>"

definition tab_dev :: Tab where
  "tab_dev = \<lparr>tab_id = Some 10, url = Some ''https://dev.example.com/'',
               groupId = TAB_GROUP_ID_NONE\<rparr>"

definition tab_localhost :: Tab where
  "tab_localhost = \<lparr>tab_id = Some 9, url = Some ''http://localhost/index.html'',
                     groupId = TAB_GROUP_ID_NONE\<rparr>"

text \<open>The state after the tab on \<^verbatim>\<open>gitlab.com\<close> has been handled by the started manager.\<close>

definition after_gitlab :: "regexp TabGroupManager \<times> chrome" where
  "after_gitlab = handleTabUpdate js tab_gitlab (started, new_browser)"

text \<open>
  The regular expressions that \<^verbatim>\<open>createAutoPattern\<close> builds for the templates
  \<^verbatim>\<open>:name.example.com\<close> and \<^verbatim>\<open>:name.*.example.com\<close>.
\<close>

definition one_label_regexp :: regexp where
  "one_label_regexp =
     \<lparr>from_start = True, atoms = Name # Chr CHR ''.'' # map Chr ''example.com'', to_end = True\<rparr>"

definition two_label_regexp :: regexp where
  "two_label_regexp =
     \<lparr>from_start = True,
      atoms = Name # Chr CHR ''.'' # NonDots # Chr CHR ''.'' # map Chr ''example.com'',
      to_end = True\<rparr>"

text \<open>
  The started manager after its default template has been removed, and after the
  template \<^verbatim>\<open>:name.example.com\<close> has been added.
\<close>

definition removed_default :: "bool \<times> regexp TabGroupManager \<times> chrome" where
  "removed_default = removeAutoPattern js '':name.*'' (started, new_browser)"

definition added_example :: "bool \<times> regexp TabGroupManager \<times> chrome" where
  "added_example = addAutoPattern js '':name.example.com'' (started, new_browser)"

text \<open>The pattern characters that \<open>RegExp_frag\<close> accepts outside an escape.\<close>

definition printable :: "atom \<Rightarrow> bool" where
  "printable a = (case a of Chr c \<Rightarrow> c \<noteq> CHR 0x0A \<and> c \<noteq> CHR 0x0D | _ \<Rightarrow> True)"

section \<open>Properties\<close>

subsection \<open>Evaluating the examples\<close>

lemmas js_simps = js_def RegExp_frag_def exec_frag_def source_frag_def hostname_simple_def
  syntax_char_def run_def

lemma default_pattern:
  "createAutoPattern js '':name.*'' =
     Inr \<lparr>template = '':name.*'',
          regex = \<lparr>from_start = True, atoms = [Name, Chr CHR ''.'', NonDots], to_end = True\<rparr>,
          namePosition = 1\<rparr>"
  by (simp add: createAutoPattern_def regexStr_of_def js_simps)

lemma started_eq:
  "started = \<lparr>domainPatterns = [], enableAutoPatterns = True,
      autoPatterns = [\<lparr>template = '':name.*'',
          regex = \<lparr>from_start = True, atoms = [Name, Chr CHR ''.'', NonDots], to_end = True\<rparr>,
          namePosition = 1\<rparr>],
      autoPatternCache = Map.empty, processedUrls = Map.empty\<rparr>"
  by (simp add: started_def loadPatternsFromStorage_def default_pattern new_manager_def
      new_browser_def)

lemma with_github_eq:
  "with_github =
     (started\<lparr>domainPatterns := [github_pattern]\<rparr>,
      new_browser\<lparr>storage_domainPatterns :=
        Some [\<lparr>patternStr = github_text, sp_groupName = ''GitHub'', sp_color = Some ''blue''\<rparr>]\<rparr>)"
  by (simp add: with_github_def addPattern_def github_text_def github_pattern_def js_simps
      clearUrlCache_def savePatterns_def started_eq Let_def)

lemma github_matches:
  "test js (pattern github_pattern) ''github.com''"
  "\<not> test js (pattern github_pattern) ''gitlab.com''"
  by (simp_all add: test_def github_pattern_def js_simps)

lemma started_matches:
  "matchAutoPattern js (autoPatterns started) ''github.com'' = Some ''Github''"
  "matchAutoPattern js (autoPatterns started) ''gitlab.com'' = Some ''Gitlab''"
  "matchAutoPattern js (autoPatterns started) ''localhost'' = None"
  by (simp_all add: started_eq js_simps array_get_def toUpperCase_char_def)

lemma hostnames:
  "hostname js ''https://github.com/harvmaster'' = Some ''github.com''"
  "hostname js ''https://gitlab.com/explore'' = Some ''gitlab.com''"
  "hostname js ''http://localhost/index.html'' = Some ''localhost''"
  by (simp_all add: js_simps)

subsection \<open>Strings and lists\<close>

lemma indexOf_None_iff: "indexOf s p = None \<longleftrightarrow> \<not> sublist p s"
  by (induction s) (auto simp: sublist_Cons_right)

lemma str_includes_iff: "str_includes s p \<longleftrightarrow> sublist p s"
  by (simp add: str_includes_def indexOf_None_iff)

lemma find_first:
  assumes "xs = before @ p # rest" "\<forall>q\<in>set before. \<not> P q" "P p"
  shows "find P xs = Some p"
  using assms by (induction before arbitrary: xs) auto

lemma funpow_fixed: "f x = x \<Longrightarrow> (f ^^ n) x = x"
  by (induction n) simp_all

subsection \<open>The two paths of \<^verbatim>\<open>handleTabUpdate\<close>\<close>

text \<open>A URL that is in the URL cache: no pattern is tested, whatever the runtime.\<close>

lemma handleTabUpdate_hit:
  assumes "groupId tab = TAB_GROUP_ID_NONE" "url tab = Some u" "tab_id tab = Some i"
    "u \<noteq> []" "i \<noteq> 0" "\<not> startsWith u ''chrome://''" "\<not> startsWith u ''brave://''"
    "processedUrls m u = Some g"
  shows "handleTabUpdate env tab (m, w) = (m, if g = [] then w else addTabToGroup i g None w)"
  using assms by (simp add: handleTabUpdate_def)

text \<open>A URL that is not in the URL cache is classified.\<close>

lemma handleTabUpdate_miss:
  assumes "groupId tab = TAB_GROUP_ID_NONE" "url tab = Some u" "tab_id tab = Some i"
    "u \<noteq> []" "i \<noteq> 0" "\<not> startsWith u ''chrome://''" "\<not> startsWith u ''brave://''"
    "processedUrls m u = None" "hostname env u = Some d"
  shows "handleTabUpdate env tab (m, w) =
    (case find (\<lambda>p. test env (pattern p) d) (domainPatterns m) of
       Some p \<Rightarrow>
         (m\<lparr>processedUrls := (processedUrls m)(u \<mapsto> groupName p)\<rparr>,
          addTabToGroup i (groupName p) (color p) w)
     | None \<Rightarrow>
         (case (if enableAutoPatterns m
                then matchAutoPattern env (autoPatterns m) d else None) of
            Some (g # gs) \<Rightarrow>
              (m\<lparr>autoPatternCache := (autoPatternCache m)(d \<mapsto> g # gs),
                 processedUrls := (processedUrls m)(u \<mapsto> g # gs)\<rparr>,
               addTabToGroup i (g # gs) None w)
          | _ \<Rightarrow> (m\<lparr>processedUrls := (processedUrls m)(u \<mapsto> [])\<rparr>, w)))"
  using assms by (simp add: handleTabUpdate_def)

lemma tab_github_ok:
  "groupId tab_github = TAB_GROUP_ID_NONE"
  "url tab_github = Some ''https://github.com/harvmaster''"
  "tab_id tab_github = Some 7"
  "''https://github.com/harvmaster'' \<noteq> []"
  "(7::nat) \<noteq> 0"
  "\<not> startsWith ''https://github.com/harvmaster'' ''chrome://''"
  "\<not> startsWith ''https://github.com/harvmaster'' ''brave://''"
  by (simp_all add: tab_github_def startsWith_def)

lemma tab_localhost_ok:
  "groupId tab_localhost = TAB_GROUP_ID_NONE"
  "url tab_localhost = Some ''http://localhost/index.html''"
  "tab_id tab_localhost = Some 9"
  "''http://localhost/index.html'' \<noteq> []"
  "(9::nat) \<noteq> 0"
  "\<not> startsWith ''http://localhost/index.html'' ''chrome://''"
  "\<not> startsWith ''http://localhost/index.html'' ''brave://''"
  by (simp_all add: tab_localhost_def startsWith_def)

subsection \<open>Precedence of the manual patterns\<close>

text \<open>
  Claim C1. Let \<open>p\<close> be the first manual pattern, in the order of the list, that matches
  the domain \<open>d\<close> of a tab. Then \<^verbatim>\<open>handleTabUpdate\<close>, on a URL that is not in the URL
  cache, the loop body of \<^verbatim>\<open>groupAllExistingTabs\<close> and \<^verbatim>\<open>groupAllExistingTabs\<close> itself, run
  on that tab, all request the group name and the colour of \<open>p\<close>. The outcome is the same
  for every list of auto-patterns \<open>aps\<close>, every setting \<open>en\<close> of the switch and every
  content \<open>ac\<close> of the domain cache: the auto-patterns play no part in it.
\<close>

theorem manual_pattern_wins:
  assumes "domainPatterns m = before @ p # rest"
    and "\<forall>q\<in>set before. \<not> test env (pattern q) d"
    and "test env (pattern p) d"
    and "url tab = Some u" "tab_id tab = Some i" "u \<noteq> []" "i \<noteq> 0"
    and "hostname env u = Some d"
  shows
    "(groupId tab = TAB_GROUP_ID_NONE \<and> \<not> startsWith u ''chrome://'' \<and>
      \<not> startsWith u ''brave://'' \<and> processedUrls m u = None \<longrightarrow>
       handleTabUpdate env tab
         (m\<lparr>enableAutoPatterns := en, autoPatterns := aps, autoPatternCache := ac\<rparr>, w) =
         (m\<lparr>enableAutoPatterns := en, autoPatterns := aps, autoPatternCache := ac,
            processedUrls := (processedUrls m)(u \<mapsto> groupName p)\<rparr>,
          addTabToGroup i (groupName p) (color p) w)) \<and>
     (d \<noteq> [] \<longrightarrow>
       groupTab env tab
         ((m\<lparr>enableAutoPatterns := en, autoPatterns := aps, autoPatternCache := ac\<rparr>, w), n) =
         ((m\<lparr>enableAutoPatterns := en, autoPatterns := aps, autoPatternCache := ac\<rparr>,
           addTabToGroup i (groupName p) (color p) w), n + 1)) \<and>
     (d \<noteq> [] \<and> ungrouped tab \<longrightarrow>
       groupAllExistingTabs env [tab]
         (m\<lparr>enableAutoPatterns := en, autoPatterns := aps, autoPatternCache := ac\<rparr>, w) =
         ((m\<lparr>enableAutoPatterns := en, autoPatterns := aps, autoPatternCache := ac\<rparr>,
           addTabToGroup i (groupName p) (color p) w), 1))"
proof -
  have f: "find (\<lambda>p. test env (pattern p) d) (domainPatterns m) = Some p"
    using assms(1-3) by (rule find_first)
  show ?thesis
    using f assms(4-8) by (simp add: handleTabUpdate_def groupTab_def groupAllExistingTabs_def)
qed

text \<open>
  With the three manual patterns, \<^verbatim>\<open>github.com\<close> is not matched by the first, is matched
  by the second and by the third, and the default template \<^verbatim>\<open>:name.*\<close> would name it
  Github; the tab goes to GitHub, in blue.
\<close>

lemma with_three_eq:
  "fst with_three = started\<lparr>domainPatterns := [gitlab_pattern, github_pattern, hub_pattern]\<rparr>"
  by (simp add: with_three_def addPattern_def github_text_def gitlab_text_def github_pattern_def
      gitlab_pattern_def hub_pattern_def js_simps clearUrlCache_def savePatterns_def started_eq
      Let_def)

lemma three_matches:
  "\<not> test js (pattern gitlab_pattern) ''github.com''"
  "test js (pattern hub_pattern) ''github.com''"
  "\<not> test js (pattern gitlab_pattern) ''localhost''"
  "\<not> test js (pattern github_pattern) ''localhost''"
  "\<not> test js (pattern hub_pattern) ''localhost''"
  by (simp_all add: test_def gitlab_pattern_def github_pattern_def hub_pattern_def js_simps)

theorem manual_pattern_wins_witness:
  "\<not> test js (pattern gitlab_pattern) ''github.com'' \<and>
   test js (pattern github_pattern) ''github.com'' \<and>
   test js (pattern hub_pattern) ''github.com'' \<and>
   matchAutoPattern js (autoPatterns started) ''github.com'' = Some ''Github'' \<and>
   domainPatterns (fst with_three) = [gitlab_pattern, github_pattern, hub_pattern] \<and>
   handleTabUpdate js tab_github with_three =
     ((fst with_three)\<lparr>processedUrls := [''https://github.com/harvmaster'' \<mapsto> ''GitHub'']\<rparr>,
      addTabToGroup 7 ''GitHub'' (Some ''blue'') (snd with_three)) \<and>
   groupTab js tab_github (with_three, 0) =
     ((fst with_three, addTabToGroup 7 ''GitHub'' (Some ''blue'') (snd with_three)), 1) \<and>
   ungrouped tab_github \<and>
   groupAllExistingTabs js [tab_github] with_three =
     ((fst with_three, addTabToGroup 7 ''GitHub'' (Some ''blue'') (snd with_three)), 1)"
proof -
  have 1: "domainPatterns (fst with_three) = [gitlab_pattern] @ github_pattern # [hub_pattern]"
    by (simp add: with_three_eq)
  have 2: "\<forall>q\<in>set [gitlab_pattern]. \<not> test js (pattern q) ''github.com''"
    by (simp add: three_matches)
  have 5: "groupId tab_github = TAB_GROUP_ID_NONE \<and>
      \<not> startsWith ''https://github.com/harvmaster'' ''chrome://'' \<and>
      \<not> startsWith ''https://github.com/harvmaster'' ''brave://'' \<and>
      processedUrls (fst with_three) ''https://github.com/harvmaster'' = None"
    by (simp add: tab_github_ok with_three_eq started_eq)
  have 6: "''github.com'' \<noteq> []" by simp
  have u: "ungrouped tab_github"
    by (simp add: ungrouped_def tab_github_def str_includes_def)
  have 7: "(fst with_three)\<lparr>enableAutoPatterns := True, autoPatterns := autoPatterns started,
              autoPatternCache := Map.empty\<rparr> = fst with_three"
    "processedUrls (fst with_three) = Map.empty"
    by (simp_all add: with_three_eq started_eq)
  have 9: "(fst with_three, snd with_three) = with_three" by simp
  have 8: "groupName github_pattern = ''GitHub''" "color github_pattern = Some ''blue''"
    by (simp_all add: github_pattern_def)
  show ?thesis
    using manual_pattern_wins[OF 1 2 github_matches(1) tab_github_ok(2-5) hostnames(1),
        where en = True and aps = "autoPatterns started" and ac = Map.empty
          and w = "snd with_three" and n = 0] 5 6
      github_matches(1) three_matches(1,2) started_matches(1) 1 u
    unfolding 7 8 9
    by simp
qed

subsection \<open>Repeated calls for the same URL\<close>

text \<open>
  Claim C7. When neither a manual pattern nor (with auto-patterns enabled) a template
  matches the domain of a URL that is not yet in the URL cache, \<^verbatim>\<open>handleTabUpdate\<close>
  stores the empty string under the URL, a value different from an absent entry, and
  requests nothing. Any number \<open>n\<close> of further calls for the same tab leave the manager
  and the browser exactly as they are; this holds for every runtime \<open>env'\<close>, so no
  pattern is tested in them.
\<close>

theorem no_match_is_cached:
  assumes "groupId tab = TAB_GROUP_ID_NONE" "url tab = Some u" "tab_id tab = Some i"
    and "u \<noteq> []" "i \<noteq> 0" "\<not> startsWith u ''chrome://''" "\<not> startsWith u ''brave://''"
    and "processedUrls m u = None" "hostname env u = Some d"
    and "\<forall>p\<in>set (domainPatterns m). \<not> test env (pattern p) d"
    and "enableAutoPatterns m \<longrightarrow> matchAutoPattern env (autoPatterns m) d = None"
  shows "handleTabUpdate env tab (m, w) = (m\<lparr>processedUrls := (processedUrls m)(u \<mapsto> [])\<rparr>, w) \<and>
         (handleTabUpdate env' tab ^^ n) (m\<lparr>processedUrls := (processedUrls m)(u \<mapsto> [])\<rparr>, w) =
           (m\<lparr>processedUrls := (processedUrls m)(u \<mapsto> [])\<rparr>, w)"
proof -
  let ?m' = "m\<lparr>processedUrls := (processedUrls m)(u \<mapsto> [])\<rparr>"
  have f: "find (\<lambda>p. test env (pattern p) d) (domainPatterns m) = None"
    using assms(10) by (simp add: find_None_iff)
  have 1: "handleTabUpdate env tab (m, w) = (?m', w)"
    using assms(1-9,11) f by (simp add: handleTabUpdate_miss)
  have "handleTabUpdate env' tab (?m', w) = (?m', w)"
    using assms(1-7) by (simp add: handleTabUpdate_hit)
  then have "(handleTabUpdate env' tab ^^ n) (?m', w) = (?m', w)"
    by (rule funpow_fixed)
  with 1 show ?thesis by simp
qed

theorem no_match_is_cached_witness:
  "domainPatterns (fst with_three) = [gitlab_pattern, github_pattern, hub_pattern] \<and>
   enableAutoPatterns (fst with_three) \<and>
   matchAutoPattern js (autoPatterns (fst with_three)) ''localhost'' = None \<and>
   handleTabUpdate js tab_localhost with_three =
     ((fst with_three)\<lparr>processedUrls := [''http://localhost/index.html'' \<mapsto> []]\<rparr>,
      snd with_three) \<and>
   (handleTabUpdate js tab_localhost ^^ 2)
       ((fst with_three)\<lparr>processedUrls := [''http://localhost/index.html'' \<mapsto> []]\<rparr>,
        snd with_three) =
     ((fst with_three)\<lparr>processedUrls := [''http://localhost/index.html'' \<mapsto> []]\<rparr>,
      snd with_three)"
proof -
  have 0: "domainPatterns (fst with_three) = [gitlab_pattern, github_pattern, hub_pattern]"
    and e: "enableAutoPatterns (fst with_three)"
    and a: "autoPatterns (fst with_three) = autoPatterns started"
    by (simp_all add: with_three_eq started_eq)
  have 1: "processedUrls (fst with_three) ''http://localhost/index.html'' = None"
    and 3: "processedUrls (fst with_three) = Map.empty"
    by (simp_all add: with_three_eq started_eq)
  have 2: "\<forall>p\<in>set (domainPatterns (fst with_three)). \<not> test js (pattern p) ''localhost''"
    unfolding 0 by (simp add: three_matches)
  have 4: "enableAutoPatterns (fst with_three) \<longrightarrow>
             matchAutoPattern js (autoPatterns (fst with_three)) ''localhost'' = None"
    unfolding a by (simp add: started_matches)
  have 5: "(fst with_three, snd with_three) = with_three" by simp
  show ?thesis
    using no_match_is_cached[OF tab_localhost_ok 1 hostnames(3) 2 4,
        where w = "snd with_three" and env' = js and n = 2] 0 e 4
    unfolding 3 5 by simp
qed








subsection \<open>Calls that are not awaited\<close>

text \<open>A call that is awaited is its first part followed by the write it left behind.\<close>

lemma handleTabUpdate_resumed:
  "handleTabUpdate env tab s =
     (case handleTabUpdate_until_await env tab s of
        ((m, w), None) \<Rightarrow> (m, w)
      | ((m, w), Some x) \<Rightarrow> (resume x m, w))"
  by (cases s)
    (simp add: handleTabUpdate_def handleTabUpdate_until_await_def resume_def
      split: option.splits list.splits)

text \<open>
  In the loop of \<^verbatim>\<open>applyPatternsToExistingTabs\<close> two tabs on the same URL are both
  classified, and both are requested with the colour of the manual pattern: the first
  call has not yet written to the URL cache when the second one reads it.
\<close>

lemma two_tabs_not_awaited:
  "groupRequests (snd (applyPatternsToExistingTabs js [tab_github, tab_github_again] with_github))
     = [(7, ''GitHub'', Some ''blue''), (11, ''GitHub'', Some ''blue'')]"
  "processedUrls (fst (applyPatternsToExistingTabs js [tab_github, tab_github_again] with_github))
     = [''https://github.com/harvmaster'' \<mapsto> ''GitHub'']"
  by (simp_all add: applyPatternsToExistingTabs_def handleTabUpdate_until_await_def resume_def
      with_github_eq started_eq tab_github_def tab_github_again_def TAB_GROUP_ID_NONE_def
      startsWith_def github_pattern_def test_def js_simps addTabToGroup_def new_browser_def)

subsection \<open>Invalidation of the caches\<close>

lemma after_gitlab_eq:
  "after_gitlab =
     (started\<lparr>autoPatternCache := [''gitlab.com'' \<mapsto> ''Gitlab''],
              processedUrls := [''https://gitlab.com/explore'' \<mapsto> ''Gitlab'']\<rparr>,
      new_browser\<lparr>groupRequests := [(8, ''Gitlab'', None)]\<rparr>)"
proof -
  have ok: "groupId tab_gitlab = TAB_GROUP_ID_NONE"
    "url tab_gitlab = Some ''https://gitlab.com/explore''"
    "tab_id tab_gitlab = Some 8" "''https://gitlab.com/explore'' \<noteq> []" "(8::nat) \<noteq> 0"
    "\<not> startsWith ''https://gitlab.com/explore'' ''chrome://''"
    "\<not> startsWith ''https://gitlab.com/explore'' ''brave://''"
    by (simp_all add: tab_gitlab_def startsWith_def)
  have c: "processedUrls started ''https://gitlab.com/explore'' = None"
    and e: "processedUrls started = Map.empty" "autoPatternCache started = Map.empty"
      "domainPatterns started = []" "enableAutoPatterns started"
    by (simp_all add: started_eq)
  show ?thesis
    unfolding after_gitlab_def handleTabUpdate_miss[OF ok c hostnames(2)]
    by (simp add: e started_matches addTabToGroup_def new_browser_def)
qed

text \<open>
  Claim C2, as the code has it. Each of the four operations, when it changes the
  configuration, leaves the URL cache empty. The domain cache is emptied by the removal
  of a template only: adding a manual pattern, adding a template and switching the
  auto-patterns on or off leave it as it was.
\<close>

theorem url_cache_cleared:
  "(RegExp env pStr \<noteq> None \<longrightarrow>
      processedUrls (fst (addPattern env pStr name col (m, w))) = Map.empty \<and>
      autoPatternCache (fst (addPattern env pStr name col (m, w))) = autoPatternCache m) \<and>
   (fst (addAutoPattern env t (m, w)) \<longrightarrow>
      processedUrls (fst (snd (addAutoPattern env t (m, w)))) = Map.empty \<and>
      autoPatternCache (fst (snd (addAutoPattern env t (m, w)))) = autoPatternCache m) \<and>
   (fst (removeAutoPattern env t' (m, w)) \<longrightarrow>
      processedUrls (fst (snd (removeAutoPattern env t' (m, w)))) = Map.empty \<and>
      autoPatternCache (fst (snd (removeAutoPattern env t' (m, w)))) = Map.empty) \<and>
   processedUrls (fst (setAutoPatterns env enabled (m, w))) = Map.empty \<and>
   autoPatternCache (fst (setAutoPatterns env enabled (m, w))) = autoPatternCache m"
  by (auto simp: addPattern_def addAutoPattern_def removeAutoPattern_def setAutoPatterns_def
      clearUrlCache_def Let_def split: option.splits sum.splits)

theorem url_cache_cleared_witness:
  "RegExp js github_text \<noteq> None \<and>
   fst (addAutoPattern js '':name.example.com'' after_gitlab) \<and>
   fst (removeAutoPattern js '':name.*'' after_gitlab) \<and>
   processedUrls (fst after_gitlab) ''https://gitlab.com/explore'' = Some ''Gitlab'' \<and>
   autoPatternCache (fst after_gitlab) = [''gitlab.com'' \<mapsto> ''Gitlab''] \<and>
   processedUrls (fst (addPattern js github_text ''GitHub'' None after_gitlab)) = Map.empty \<and>
   autoPatternCache (fst (addPattern js github_text ''GitHub'' None after_gitlab))
     = [''gitlab.com'' \<mapsto> ''Gitlab''] \<and>
   processedUrls (fst (snd (addAutoPattern js '':name.example.com'' after_gitlab))) = Map.empty \<and>
   autoPatternCache (fst (snd (addAutoPattern js '':name.example.com'' after_gitlab)))
     = [''gitlab.com'' \<mapsto> ''Gitlab''] \<and>
   processedUrls (fst (snd (removeAutoPattern js '':name.*'' after_gitlab))) = Map.empty \<and>
   autoPatternCache (fst (snd (removeAutoPattern js '':name.*'' after_gitlab))) = Map.empty \<and>
   processedUrls (fst (setAutoPatterns js False after_gitlab)) = Map.empty \<and>
   autoPatternCache (fst (setAutoPatterns js False after_gitlab)) = [''gitlab.com'' \<mapsto> ''Gitlab'']"
proof -
  obtain m w where mw: "after_gitlab = (m, w)" by (cases after_gitlab)
  have m: "m = started\<lparr>autoPatternCache := [''gitlab.com'' \<mapsto> ''Gitlab''],
              processedUrls := [''https://gitlab.com/explore'' \<mapsto> ''Gitlab'']\<rparr>"
    using mw by (simp add: after_gitlab_eq)
  have 1: "RegExp js github_text \<noteq> None"
    by (simp add: github_text_def js_simps)
  have 2: "fst (addAutoPattern js '':name.example.com'' (m, w))"
    by (simp add: m started_eq addAutoPattern_def str_includes_def createAutoPattern_def
        regexStr_of_def js_simps Let_def)
  have 3: "fst (removeAutoPattern js '':name.*'' (m, w))"
    by (simp add: m started_eq removeAutoPattern_def Let_def)
  have 4: "processedUrls m ''https://gitlab.com/explore'' = Some ''Gitlab''"
    "autoPatternCache m = [''gitlab.com'' \<mapsto> ''Gitlab'']"
    by (simp_all add: m)
  show ?thesis
    using url_cache_cleared[of js github_text "''GitHub''" None m w "'':name.example.com''"
        "'':name.*''" False] 1 2 3 4
    by (simp add: mw)
qed

text \<open>
  The claim as it was stated fails: the entry for \<^verbatim>\<open>gitlab.com\<close>, written to the domain
  cache before the manual pattern is added, is still there afterwards.
\<close>

theorem domain_cache_survives_addPattern:
  "autoPatternCache (fst (addPattern js github_text ''GitHub'' (Some ''blue'') after_gitlab))
     ''gitlab.com'' = Some ''Gitlab''"
  by (simp add: after_gitlab_eq addPattern_def github_text_def js_simps clearUrlCache_def Let_def)

text \<open>
  The entries that stay in the domain cache still say what the templates say: a template
  is added at the end of the list, behind the one that produced the entry.
\<close>

lemma matchAutoPattern_append:
  "matchAutoPattern env ps d = Some g \<Longrightarrow> matchAutoPattern env (ps @ [q]) d = Some g"
  by (induction ps) (auto split: option.splits list.splits)

subsection \<open>Rejected additions\<close>

text \<open>
  Claim C6. For a template that does not contain \<^verbatim>\<open>:name\<close>, \<^verbatim>\<open>createAutoPattern\<close> throws,
  \<^verbatim>\<open>addAutoPattern\<close> returns \<^verbatim>\<open>false\<close> and the message listener answers with a failure;
  the manager, with its list of templates, and the browser stay as they were.
\<close>

theorem addAutoPattern_without_name:
  assumes "\<not> sublist '':name'' t"
  shows "addAutoPattern env t (m, w) = (False, m, w) \<and>
     onMessage env (AddAutoPattern t) (m, w) = (Failed ''Invalid template format'', m, w) \<and>
     createAutoPattern env t = Inl (Error ''Template must contain a :name placeholder'')"
  using assms
  by (simp add: addAutoPattern_def str_includes_iff createAutoPattern_def
      indexOf_None_iff[THEN iffD2])

theorem addAutoPattern_without_name_witness:
  "\<not> sublist '':name'' ''*.example.com'' \<and>
   addAutoPattern js ''*.example.com'' (started, new_browser) = (False, started, new_browser) \<and>
   onMessage js (AddAutoPattern ''*.example.com'') (started, new_browser) =
     (Failed ''Invalid template format'', started, new_browser) \<and>
   getAutoPatternTemplates started = ['':name.*'']"
proof -
  have h: "\<not> sublist '':name'' ''*.example.com''"
    by (simp add: str_includes_iff[symmetric] str_includes_def)
  show ?thesis
    using h addAutoPattern_without_name[OF h, of js started new_browser]
    by (simp add: started_eq getAutoPatternTemplates_def)
qed

text \<open>
  Claim C10. \<^verbatim>\<open>addAutoPattern\<close> with a template that is already in the list returns
  \<^verbatim>\<open>false\<close> and leaves the manager (templates and both caches) and the browser (the
  stored settings) as they were. A list of templates without duplicates has none after
  \<^verbatim>\<open>addAutoPattern\<close>, whatever the template.
\<close>

theorem addAutoPattern_duplicate:
  "(t \<in> set (getAutoPatternTemplates m) \<longrightarrow> addAutoPattern env t (m, w) = (False, m, w)) \<and>
   (distinct (getAutoPatternTemplates m) \<longrightarrow>
      distinct (getAutoPatternTemplates (fst (snd (addAutoPattern env t (m, w))))))"
  by (auto simp: addAutoPattern_def getAutoPatternTemplates_def list_ex_iff createAutoPattern_def
      clearUrlCache_def Let_def split: sum.splits option.splits)

theorem addAutoPattern_duplicate_witness:
  "'':name.*'' \<in> set (getAutoPatternTemplates started) \<and>
   distinct (getAutoPatternTemplates started) \<and>
   addAutoPattern js '':name.*'' (started, new_browser) = (False, started, new_browser) \<and>
   distinct (getAutoPatternTemplates (fst (snd (addAutoPattern js '':name.*'' (started, new_browser)))))"
proof -
  have 1: "'':name.*'' \<in> set (getAutoPatternTemplates started)"
    and 2: "distinct (getAutoPatternTemplates started)"
    by (simp_all add: started_eq getAutoPatternTemplates_def)
  from 1 2 addAutoPattern_duplicate[of "'':name.*''" started js new_browser]
  show ?thesis by simp
qed

text \<open>
  The message listener does not pass that \<^verbatim>\<open>false\<close> on: it answers with whether the
  template is in the list after the call, which a duplicate is.
\<close>

lemma onMessage_duplicate:
  assumes "t \<in> set (getAutoPatternTemplates m)" "sublist '':name'' t"
  shows "onMessage env (AddAutoPattern t) (m, w) = (Success True, m, w)"
proof -
  have "t \<noteq> []" using assms(2) by auto
  moreover have "addAutoPattern env t (m, w) = (False, m, w)"
    using assms(1)
    by (auto simp: addAutoPattern_def getAutoPatternTemplates_def list_ex_iff)
  ultimately show ?thesis
    using assms by (simp add: str_includes_iff)
qed

text \<open>A pattern text that the runtime rejects changes nothing, and is answered with success.\<close>

lemma addPattern_invalid:
  assumes "RegExp env pStr = None"
  shows "addPattern env pStr name col (m, w) = (m, w)"
    and "onMessage env (AddPattern pStr name col) (m, w) = (Success True, m, w)"
  using assms by (simp_all add: addPattern_def)

text \<open>
  Claim C9. The pattern text \<^verbatim>\<open>(\<close> is not a regular expression. \<^verbatim>\<open>addPattern\<close> catches the
  SyntaxError and leaves the manager and the browser as they were, but the message
  listener still answers the request with \<^verbatim>\<open>success: true\<close>: the failure does not reach
  the caller.
\<close>

theorem addPattern_invalid_answers_success:
  "RegExp js ''('' = None \<and>
   onMessage js (AddPattern ''('' ''Broken'' None) (started, new_browser) =
     (Success True, started, new_browser)"
  by (simp add: addPattern_def js_simps)

subsection \<open>What a compiled template matches\<close>

text \<open>
  \<open>run s\<close> is the length of the first label of \<open>s\<close>. Before a literal dot, \<^verbatim>\<open>[^.]+\<close>
  can only stop at the end of that label: every shorter attempt leaves a character other
  than the dot in front of the rest of the pattern.
\<close>

lemma run_le: "run s \<le> length s"
  by (simp add: run_def length_takeWhile_le)

lemma run_nth: "j < run s \<Longrightarrow> s ! j \<noteq> CHR ''.''"
  unfolding run_def using nth_mem[of j "takeWhile (\<lambda>c. c \<noteq> CHR ''.'') s"]
  by (auto simp: takeWhile_nth dest: set_takeWhileD)

lemma run_append_dot: "CHR ''.'' \<notin> set l \<Longrightarrow> run (l @ CHR ''.'' # s) = length l"
  by (induction l) (auto simp: run_def)

lemma take_run: "take (run s) s = takeWhile (\<lambda>c. c \<noteq> CHR ''.'') s"
  by (simp add: run_def takeWhile_eq_take[symmetric])

lemma take_run_nodot: "CHR ''.'' \<notin> set (take (run s) s)"
  by (auto simp: take_run dest: set_takeWhileD)

lemma backtrack_None:
  "(\<And>j. 0 < j \<Longrightarrow> j \<le> n \<Longrightarrow> k (drop j s) = None) \<Longrightarrow> backtrack k s n = None"
  by (induction n) auto

lemma backtrack_dot:
  assumes "\<And>t. k t \<noteq> None \<Longrightarrow> \<exists>t'. t = CHR ''.'' # t'"
  shows "backtrack k s (run s) =
           (if run s = 0 then None else map_option (Pair (run s)) (k (drop (run s) s)))"
proof (cases "run s")
  case 0
  then show ?thesis by simp
next
  case (Suc n)
  have "backtrack k s n = None"
  proof (rule backtrack_None)
    fix j assume "0 < j" "j \<le> n"
    then have j: "j < run s" using Suc by simp
    then have "s ! j \<noteq> CHR ''.''" by (rule run_nth)
    moreover have "j < length s" using j run_le[of s] by simp
    then have "drop j s = s ! j # drop (Suc j) s" by (simp add: Cons_nth_drop_Suc)
    ultimately have "\<not> (\<exists>t'. drop j s = CHR ''.'' # t')" by auto
    then show "k (drop j s) = None" using assms[of "drop j s"] by blast
  qed
  then show ?thesis using Suc by (simp split: option.splits)
qed

lemma match_dot_first:
  "match_atoms (Chr CHR ''.'' # as) e t \<noteq> None \<Longrightarrow> \<exists>t'. t = CHR ''.'' # t'"
  by (cases t) (auto split: if_splits)

lemma match_Name_dot:
  "match_atoms (Name # Chr CHR ''.'' # as) e s =
     (if run s = 0 then None
      else case match_atoms (Chr CHR ''.'' # as) e (drop (run s) s) of
        None \<Rightarrow> None
      | Some (n, caps) \<Rightarrow> Some (run s + n, Some (take (run s) s) # caps))"
  using backtrack_dot[of "match_atoms (Chr CHR ''.'' # as) e" s, OF match_dot_first]
  by (simp del: match_atoms.simps(2) split: option.splits)

lemma match_NonDots_dot:
  "match_atoms (NonDots # Chr CHR ''.'' # as) e s =
     (if run s = 0 then None
      else case match_atoms (Chr CHR ''.'' # as) e (drop (run s) s) of
        None \<Rightarrow> None
      | Some (n, caps) \<Rightarrow> Some (run s + n, caps))"
  using backtrack_dot[of "match_atoms (Chr CHR ''.'' # as) e" s, OF match_dot_first]
  by (simp del: match_atoms.simps(2) split: option.splits)

lemma match_literal:
  "match_atoms (map Chr lit) True s = (if s = lit then Some (length lit, []) else None)"
  by (induction lit arbitrary: s) (auto split: list.splits)

lemma match_dot_literal:
  "match_atoms (Chr CHR ''.'' # map Chr lit) True t =
     (if t = CHR ''.'' # lit then Some (Suc (length lit), []) else None)"
  using match_literal[of "CHR ''.'' # lit" t] by simp

lemma match_one_label:
  assumes "l \<noteq> []" "CHR ''.'' \<notin> set l"
  shows "match_atoms (Name # Chr CHR ''.'' # map Chr lit) True (l @ CHR ''.'' # lit) =
           Some (length (l @ CHR ''.'' # lit), [Some l])"
  using assms
  by (simp add: match_Name_dot match_dot_literal run_append_dot del: match_atoms.simps)

lemma match_two_labels:
  "match_atoms (Name # Chr CHR ''.'' # NonDots # Chr CHR ''.'' # map Chr lit) True d = Some (n, caps)
   \<longleftrightarrow> (\<exists>a b. a \<noteq> [] \<and> CHR ''.'' \<notin> set a \<and> b \<noteq> [] \<and> CHR ''.'' \<notin> set b \<and>
              d = a @ CHR ''.'' # b @ CHR ''.'' # lit \<and> n = length d \<and> caps = [Some a])"
  (is "?L \<longleftrightarrow> ?R")
proof
  assume ?R
  then obtain a b where ab: "a \<noteq> []" "CHR ''.'' \<notin> set a" "b \<noteq> []" "CHR ''.'' \<notin> set b"
    "d = a @ CHR ''.'' # b @ CHR ''.'' # lit" "n = length d" "caps = [Some a]" by blast
  have inner: "match_atoms (NonDots # Chr CHR ''.'' # map Chr lit) True (b @ CHR ''.'' # lit) =
                 Some (length b + Suc (length lit), [])"
    using ab(3,4)
    by (simp add: match_NonDots_dot match_dot_literal run_append_dot del: match_atoms.simps)
  have "match_atoms (Chr CHR ''.'' # NonDots # Chr CHR ''.'' # map Chr lit) True
          (CHR ''.'' # b @ CHR ''.'' # lit) = Some (Suc (length b + Suc (length lit)), [])"
    using inner by (simp del: match_atoms.simps(3))
  then show ?L
    using ab by (simp add: match_Name_dot run_append_dot del: match_atoms.simps)
next
  assume L: ?L
  from L have r0: "run d \<noteq> 0"
    by (simp add: match_Name_dot del: match_atoms.simps split: if_splits)
  from L r0 obtain n1 caps1 where
    m1: "match_atoms (Chr CHR ''.'' # NonDots # Chr CHR ''.'' # map Chr lit) True (drop (run d) d)
           = Some (n1, caps1)"
    and n: "n = run d + n1" and caps: "caps = Some (take (run d) d) # caps1"
    by (auto simp: match_Name_dot simp del: match_atoms.simps split: option.splits)
  from m1 obtain r2 where r2: "drop (run d) d = CHR ''.'' # r2"
    using match_dot_first[of _ True "drop (run d) d"] by fastforce
  from m1 r2 obtain n2 where
    m2: "match_atoms (NonDots # Chr CHR ''.'' # map Chr lit) True r2 = Some (n2, caps1)"
    and n1: "n1 = Suc n2"
    by (auto simp del: match_atoms.simps(3))
  from m2 have r20: "run r2 \<noteq> 0"
    by (simp add: match_NonDots_dot del: match_atoms.simps split: if_splits)
  from m2 r20 have m3: "drop (run r2) r2 = CHR ''.'' # lit" and n2: "n2 = run r2 + Suc (length lit)"
    and c1: "caps1 = []"
    by (auto simp: match_NonDots_dot match_dot_literal simp del: match_atoms.simps
        split: option.splits if_splits)
  define a where "a = take (run d) d"
  define b where "b = take (run r2) r2"
  have la: "length a = run d" and lb: "length b = run r2"
    using run_le[of d] run_le[of r2] by (simp_all add: a_def b_def)
  have na: "a \<noteq> []" and nb: "b \<noteq> []"
    using la lb r0 r20 by auto
  have da: "CHR ''.'' \<notin> set a" and db: "CHR ''.'' \<notin> set b"
    by (simp_all add: a_def b_def take_run_nodot)
  have "d = a @ drop (run d) d" "r2 = b @ drop (run r2) r2"
    by (simp_all add: a_def b_def)
  then have d: "d = a @ CHR ''.'' # b @ CHR ''.'' # lit"
    unfolding r2 m3 by simp
  have "length d = length a + Suc (length b + Suc (length lit))"
    by (subst d) simp
  then have "n = length d"
    using n n1 n2 la lb by linarith
  moreover have "caps = [Some a]"
    using caps c1 by (simp add: a_def)
  ultimately show ?R
    using d na nb da db by blast
qed

lemma one_label_pattern:
  "createAutoPattern js '':name.example.com'' =
     Inr \<lparr>template = '':name.example.com'', regex = one_label_regexp, namePosition = 1\<rparr>"
  by (simp add: createAutoPattern_def regexStr_of_def js_def RegExp_frag_def syntax_char_def
      one_label_regexp_def)

lemma two_label_pattern:
  "createAutoPattern js '':name.*.example.com'' =
     Inr \<lparr>template = '':name.*.example.com'', regex = two_label_regexp, namePosition = 1\<rparr>"
  by (simp add: createAutoPattern_def regexStr_of_def js_def RegExp_frag_def syntax_char_def
      two_label_regexp_def)

lemma exec_one_label:
  assumes "l \<noteq> []" "CHR ''.'' \<notin> set l"
  shows "exec js one_label_regexp (l @ ''.example.com'') = Some [Some (l @ ''.example.com''), Some l]"
  using match_one_label[OF assms, of "''example.com''"]
  by (simp add: js_def exec_frag_def one_label_regexp_def del: match_atoms.simps)

lemma exec_two_labels:
  "exec js two_label_regexp d = Some m \<longleftrightarrow>
     (\<exists>a b. a \<noteq> [] \<and> CHR ''.'' \<notin> set a \<and> b \<noteq> [] \<and> CHR ''.'' \<notin> set b \<and>
            d = a @ ''.'' @ b @ ''.example.com'' \<and> m = [Some d, Some a])"
  (is "?L \<longleftrightarrow> ?R")
proof -
  let ?as = "Name # Chr CHR ''.'' # NonDots # Chr CHR ''.'' # map Chr ''example.com''"
  have ex: "exec js two_label_regexp d =
              map_option (\<lambda>(n, caps). Some (take n d) # caps) (match_atoms ?as True d)"
    by (simp add: js_def exec_frag_def two_label_regexp_def del: match_atoms.simps)
  show ?thesis
  proof
    assume ?L
    then obtain n caps where nc: "match_atoms ?as True d = Some (n, caps)"
      and m: "m = Some (take n d) # caps"
      unfolding ex by auto
    from nc obtain a b where ab: "a \<noteq> []" "CHR ''.'' \<notin> set a" "b \<noteq> []" "CHR ''.'' \<notin> set b"
      "d = a @ CHR ''.'' # b @ CHR ''.'' # ''example.com''" "n = length d" "caps = [Some a]"
      unfolding match_two_labels by blast
    have "m = [Some d, Some a]" using m ab(6,7) by simp
    with ab(1-5) show ?R by auto
  next
    assume ?R
    then obtain a b where ab: "a \<noteq> []" "CHR ''.'' \<notin> set a" "b \<noteq> []" "CHR ''.'' \<notin> set b"
      "d = a @ CHR ''.'' # b @ CHR ''.'' # ''example.com''" "m = [Some d, Some a]"
      by auto
    then have "match_atoms ?as True d = Some (length d, [Some a])"
      unfolding match_two_labels by blast
    then show ?L unfolding ex by (simp add: ab(6) del: match_atoms.simps)
  qed
qed

lemma matchAutoPattern_single:
  "matchAutoPattern env [p] d =
     (case exec env (regex p) d of
        None \<Rightarrow> None
      | Some m \<Rightarrow> (case array_get m (namePosition p) of
                     Some (c # cs) \<Rightarrow> Some (toUpperCase_char c # cs)
                   | _ \<Rightarrow> None))"
  by (simp split: option.splits list.splits)

text \<open>
  Claim C4. The template \<^verbatim>\<open>:name.example.com\<close> compiles, and for every label \<open>c # cs\<close>
  without a dot the domain made of the label and \<^verbatim>\<open>.example.com\<close> is given the label
  with its first character upper-cased and the others unchanged; \<^verbatim>\<open>dev.example.com\<close>
  gives Dev.
\<close>

theorem first_letter_upper_cased:
  assumes "CHR ''.'' \<notin> set (c # cs)"
  shows "case createAutoPattern js '':name.example.com'' of
           Inl e \<Rightarrow> False
         | Inr p \<Rightarrow>
             matchAutoPattern js [p] ((c # cs) @ ''.example.com'') = Some (toUpperCase_char c # cs)"
  using exec_one_label[of "c # cs"] assms
  by (simp add: one_label_pattern matchAutoPattern_single array_get_def
      del: matchAutoPattern.simps)

theorem first_letter_upper_cased_witness:
  "CHR ''.'' \<notin> set ''dev'' \<and>
   (case createAutoPattern js '':name.example.com'' of
      Inl e \<Rightarrow> False
    | Inr p \<Rightarrow> matchAutoPattern js [p] ''dev.example.com'' = Some ''Dev'')"
proof -
  have h: "CHR ''.'' \<notin> set (CHR ''d'' # ''ev'')" by simp
  have u: "toUpperCase_char CHR ''d'' = CHR ''D''" by (simp add: toUpperCase_char_def)
  show ?thesis
    using first_letter_upper_cased[OF h] h unfolding u
    by (simp add: one_label_pattern del: matchAutoPattern.simps)
qed

lemma added_example_eq:
  "added_example =
     (True,
      started\<lparr>autoPatterns := autoPatterns started @
         [\<lparr>template = '':name.example.com'', regex = one_label_regexp, namePosition = 1\<rparr>]\<rparr>,
      saveSettings js
        (started\<lparr>autoPatterns := autoPatterns started @
           [\<lparr>template = '':name.example.com'', regex = one_label_regexp, namePosition = 1\<rparr>]\<rparr>)
        new_browser)"
  by (simp add: added_example_def addAutoPattern_def str_includes_def one_label_pattern
      started_eq clearUrlCache_def Let_def)

text \<open>
  The same through \<^verbatim>\<open>handleTabUpdate\<close>, for the started manager with the template added
  behind the default one: the default \<^verbatim>\<open>:name.*\<close> does not match the three labels of
  \<^verbatim>\<open>dev.example.com\<close>, the added template does, and the tab is sent to the group Dev.
\<close>

lemma dev_example_grouped:
  "groupRequests (snd (handleTabUpdate js tab_dev (snd added_example))) = [(10, ''Dev'', None)]"
  by (simp add: added_example_eq started_eq handleTabUpdate_def tab_dev_def TAB_GROUP_ID_NONE_def
      startsWith_def js_simps one_label_regexp_def array_get_def toUpperCase_char_def
      addTabToGroup_def saveSettings_def new_browser_def)

text \<open>
  Claim C5. The template \<^verbatim>\<open>:name.*.example.com\<close> compiles to a matcher for which
  \<^verbatim>\<open>project.dev.example.com\<close> gives Project and \<^verbatim>\<open>example.com\<close> gives no match. It
  matches exactly the domains \<open>a.b.example.com\<close> with \<open>a\<close> and \<open>b\<close> non-empty and without
  a dot: the wildcard stands for one label, and nothing may come before \<open>a\<close> or after
  \<^verbatim>\<open>.example.com\<close>.
\<close>

theorem wildcard_is_one_label:
  "case createAutoPattern js '':name.*.example.com'' of
     Inl e \<Rightarrow> False
   | Inr p \<Rightarrow>
       (a \<noteq> [] \<and> CHR ''.'' \<notin> set a \<and> b \<noteq> [] \<and> CHR ''.'' \<notin> set b \<longrightarrow>
          matchAutoPattern js [p] (a @ ''.'' @ b @ ''.example.com'')
            = Some (toUpperCase_char (hd a) # tl a)) \<and>
       (matchAutoPattern js [p] d \<noteq> None \<longrightarrow>
          (\<exists>a b. a \<noteq> [] \<and> CHR ''.'' \<notin> set a \<and> b \<noteq> [] \<and> CHR ''.'' \<notin> set b \<and>
                 d = a @ ''.'' @ b @ ''.example.com'')) \<and>
       matchAutoPattern js [p] ''project.dev.example.com'' = Some ''Project'' \<and>
       matchAutoPattern js [p] ''example.com'' = None"
proof -
  let ?p = "\<lparr>template = '':name.*.example.com'', regex = two_label_regexp, namePosition = 1\<rparr>"
  have 1: "matchAutoPattern js [?p] (a @ ''.'' @ b @ ''.example.com'')
            = Some (toUpperCase_char (hd a) # tl a)"
    if "a \<noteq> []" "CHR ''.'' \<notin> set a" "b \<noteq> []" "CHR ''.'' \<notin> set b" for a b
  proof -
    have "exec js two_label_regexp (a @ ''.'' @ b @ ''.example.com'')
            = Some [Some (a @ ''.'' @ b @ ''.example.com''), Some a]"
      unfolding exec_two_labels using that by blast
    then show ?thesis
      using that(1)
      by (cases a) (simp_all add: matchAutoPattern_single array_get_def del: matchAutoPattern.simps)
  qed
  have 2: "\<exists>a b. a \<noteq> [] \<and> CHR ''.'' \<notin> set a \<and> b \<noteq> [] \<and> CHR ''.'' \<notin> set b \<and>
                 d = a @ ''.'' @ b @ ''.example.com''"
    if "matchAutoPattern js [?p] d \<noteq> None" for d
  proof -
    from that obtain m where "exec js two_label_regexp d = Some m"
      by (auto simp: matchAutoPattern_single simp del: matchAutoPattern.simps split: option.splits)
    then show ?thesis unfolding exec_two_labels by blast
  qed
  have 3: "matchAutoPattern js [?p] ''project.dev.example.com'' = Some ''Project''"
    using 1[of "''project''" "''dev''"] by (simp add: toUpperCase_char_def)
  have 4: "matchAutoPattern js [?p] ''example.com'' = None"
  proof (rule ccontr)
    assume "matchAutoPattern js [?p] ''example.com'' \<noteq> None"
    from 2[OF this] obtain a b where ab: "a \<noteq> []" "CHR ''.'' \<notin> set a" "b \<noteq> []"
      "''example.com'' = a @ ''.'' @ b @ ''.example.com''" by blast
    from arg_cong[OF ab(4), of length] ab(1,3) show False
      by (cases a; cases b) simp_all
  qed
  show ?thesis
    unfolding two_label_pattern using 1 2[of d] 3 4 by simp
qed

theorem wildcard_is_one_label_witness:
  "''project'' \<noteq> [] \<and> CHR ''.'' \<notin> set ''project'' \<and> ''dev'' \<noteq> [] \<and> CHR ''.'' \<notin> set ''dev'' \<and>
   (case createAutoPattern js '':name.*.example.com'' of
      Inl e \<Rightarrow> False
    | Inr p \<Rightarrow>
        matchAutoPattern js [p] ''project.dev.example.com'' = Some ''Project'' \<and>
        matchAutoPattern js [p] ''project.dev.example.com'' \<noteq> None \<and>
        (\<exists>a b. a \<noteq> [] \<and> CHR ''.'' \<notin> set a \<and> b \<noteq> [] \<and> CHR ''.'' \<notin> set b \<and>
               ''project.dev.example.com'' = a @ ''.'' @ b @ ''.example.com'') \<and>
        matchAutoPattern js [p] ''example.com'' = None)"
  using wildcard_is_one_label[of "''project''" "''dev''" "''project.dev.example.com''"]
  by (simp add: two_label_pattern toUpperCase_char_def del: matchAutoPattern.simps)

subsection \<open>Saving and loading the auto-patterns\<close>

text \<open>
  In the fragment, the source text of a regular expression compiles to the same regular
  expression again.
\<close>

lemma syntax_char_not_newline: "syntax_char c \<Longrightarrow> c \<noteq> CHR 0x0A \<and> c \<noteq> CHR 0x0D"
  by (auto simp: syntax_char_def)

lemma ordinary_char:
  "\<not> syntax_char c \<Longrightarrow>
     c \<noteq> CHR ''$'' \<and> c \<noteq> CHR ''('' \<and> c \<noteq> CHR ''['' \<and> c \<noteq> CHR 0x5C \<and> c \<noteq> CHR ''^''"
  by (simp add: syntax_char_def)

lemma syntax_chars: "syntax_char CHR ''$''" "syntax_char CHR ''(''" "syntax_char CHR ''[''"
  "syntax_char CHR 0x5C" "syntax_char CHR ''^''"
  by (simp_all add: syntax_char_def)

lemma parse_atoms_printable:
  "parse_atoms s = Some (as, e) \<Longrightarrow> list_all printable as"
proof (induction s arbitrary: as rule: parse_atoms.induct)
  case 1
  then show ?case by simp
next
  case (2 c cs)
  show ?case
    using "2.prems" "2.IH"
    by (auto simp: printable_def syntax_char_not_newline simp del: Cons_prefix_Cons
        split: if_splits list.splits)
qed

lemma parse_atoms_escaped:
  "syntax_char c \<or> c = CHR ''/'' \<Longrightarrow>
   parse_atoms (CHR 0x5C # c # cs) = map_option (apfst ((#) (Chr c))) (parse_atoms cs)"
  by simp

lemma parse_atoms_ordinary:
  assumes "\<not> syntax_char c" "c \<noteq> CHR 0x0A" "c \<noteq> CHR 0x0D"
  shows "parse_atoms (c # cs) = map_option (apfst ((#) (Chr c))) (parse_atoms cs)"
  using assms ordinary_char[OF assms(1)] by auto

lemma parse_atoms_NonDots:
  "parse_atoms (''[^.]+'' @ cs) = map_option (apfst ((#) NonDots)) (parse_atoms cs)"
  by simp

lemma parse_atoms_Name:
  "parse_atoms (''([^.]+)'' @ cs) = map_option (apfst ((#) Name)) (parse_atoms cs)"
  by simp

lemma parse_atoms_source:
  "list_all printable as \<Longrightarrow>
   parse_atoms (concat (map atom_source as) @ (if e then ''$'' else [])) = Some (as, e)"
proof (induction as)
  case Nil
  then show ?case by simp
next
  case (Cons a as)
  let ?rest = "concat (map atom_source as) @ (if e then ''$'' else [])"
  from Cons have IH: "parse_atoms ?rest = Some (as, e)" by simp
  show ?case
  proof (cases a)
    case (Chr c)
    show ?thesis
    proof (cases "syntax_char c \<or> c = CHR ''/''")
      case True
      then have "parse_atoms (CHR 0x5C # c # ?rest) = Some (a # as, e)"
        unfolding parse_atoms_escaped[OF True] IH by (simp add: Chr)
      then show ?thesis using True Chr by simp
    next
      case False
      then have "\<not> syntax_char c" "c \<noteq> CHR 0x0A" "c \<noteq> CHR 0x0D"
        using Cons.prems Chr by (simp_all add: printable_def)
      then have "parse_atoms (c # ?rest) = Some (a # as, e)"
        unfolding parse_atoms_ordinary[OF \<open>\<not> syntax_char c\<close> \<open>c \<noteq> CHR 0x0A\<close> \<open>c \<noteq> CHR 0x0D\<close>] IH
        by (simp add: Chr)
      then show ?thesis using False Chr by simp
    qed
  next
    case NonDots
    have "parse_atoms (''[^.]+'' @ ?rest) = Some (a # as, e)"
      unfolding parse_atoms_NonDots IH by (simp add: NonDots)
    then show ?thesis using NonDots by simp
  next
    case Name
    have "parse_atoms (''([^.]+)'' @ ?rest) = Some (a # as, e)"
      unfolding parse_atoms_Name IH by (simp add: Name)
    then show ?thesis using Name by simp
  qed
qed

lemma atom_source_nonempty: "atom_source a \<noteq> []"
  by (cases a) auto

lemma RegExp_frag_source:
  assumes "RegExp_frag s = Some r"
  shows "RegExp_frag (source_frag r) = Some r"
proof -
  have p: "list_all printable (atoms r)"
    using assms
    by (auto simp: RegExp_frag_def simp del: parse_atoms.simps split: if_splits list.splits
        dest: parse_atoms_printable)
  let ?body = "concat (map atom_source (atoms r)) @ (if to_end r then ''$'' else [])"
  have body: "parse_atoms ?body = Some (atoms r, to_end r)"
    using p by (rule parse_atoms_source)
  show ?thesis
  proof (cases "from_start r")
    case True
    then have "source_frag r = CHR ''^'' # ?body"
      by (simp add: source_frag_def)
    then show ?thesis
      using body True by (simp add: RegExp_frag_def del: parse_atoms.simps)
  next
    case False
    then have src: "source_frag r = (if ?body = [] then ''(?:)'' else ?body)"
      by (simp add: source_frag_def)
    show ?thesis
    proof (cases "?body")
      case Nil
      then have "atoms r = []" "\<not> to_end r"
        by (cases "atoms r"; auto simp: atom_source_nonempty split: if_splits)+
      then show ?thesis using False src Nil by (simp add: RegExp_frag_def)
    next
      case (Cons c cs)
      have c: "c \<noteq> CHR ''^''" and q: "c # cs \<noteq> ''(?:)''"
      proof -
        show "c \<noteq> CHR ''^''"
        proof (cases "atoms r")
          case Nil
          then show ?thesis using Cons by (auto split: if_splits)
        next
          case (Cons a as)
          then show ?thesis using \<open>?body = c # cs\<close>
            by (cases a) (auto split: if_splits dest: ordinary_char)
        qed
        show "c # cs \<noteq> ''(?:)''"
        proof (cases "atoms r")
          case Nil
          then show ?thesis using Cons by (auto split: if_splits)
        next
          case (Cons a as)
          then show ?thesis using \<open>?body = c # cs\<close>
            by (cases a) (auto split: if_splits dest: ordinary_char)
        qed
      qed
      have "RegExp_frag (c # cs) = Some r"
        using c q body False unfolding Cons by (auto simp: RegExp_frag_def simp del: parse_atoms.simps)
      then show ?thesis using src Cons by simp
    qed
  qed
qed

lemma those_map_Some:
  "(\<And>x. x \<in> set xs \<Longrightarrow> f x = Some (g x)) \<Longrightarrow> those (map f xs) = Some (map g xs)"
  by (induction xs) simp_all

lemma those_map_not_None:
  "(\<And>x. x \<in> set xs \<Longrightarrow> f x \<noteq> None) \<Longrightarrow> those (map f xs) \<noteq> None"
  by (induction xs) (auto split: option.splits)

lemma load_saved_autoPatterns:
  assumes "\<forall>p\<in>set ps. RegExp env (source env (regex p)) = Some (regex p)"
  shows "those (map (loadAutoPattern env)
           (map (\<lambda>p. \<lparr>sa_template = template p, regexStr = source env (regex p),
                        sa_namePosition = namePosition p\<rparr>) ps)) = Some ps"
proof -
  have "those (map (loadAutoPattern env \<circ>
           (\<lambda>p. \<lparr>sa_template = template p, regexStr = source env (regex p),
                        sa_namePosition = namePosition p\<rparr>)) ps) = Some (map (\<lambda>p. p) ps)"
    by (rule those_map_Some) (use assms in \<open>simp add: loadAutoPattern_def\<close>)
  then show ?thesis by simp
qed

lemma load_when_manual_patterns_compile:
  assumes "createAutoPattern env '':name.*'' = Inr dflt"
    and "storage_domainPatterns w = None \<or>
         (\<exists>sps dps. storage_domainPatterns w = Some sps \<and>
                    those (map (loadDomainPattern env) sps) = Some dps)"
  shows "snd (loadPatternsFromStorage env w m') = None"
    and "autoPatterns (fst (loadPatternsFromStorage env w m')) =
           (case storage_autoPatterns w of
              Some (sa # sas) \<Rightarrow>
                (case those (map (loadAutoPattern env) (sa # sas)) of
                   Some aps \<Rightarrow> aps | None \<Rightarrow> [dflt])
            | _ \<Rightarrow> [dflt])"
    and "enableAutoPatterns (fst (loadPatternsFromStorage env w m')) =
           (case storage_enableAutoPatterns w of None \<Rightarrow> enableAutoPatterns m' | Some b \<Rightarrow> b)"
  using assms
  by (auto simp: loadPatternsFromStorage_def Let_def simp del: those.simps
      split: option.splits list.splits)

lemma saveSettings_clearUrlCache [simp]:
  "saveSettings env (clearUrlCache m) w = saveSettings env m w"
  by (simp add: saveSettings_def clearUrlCache_def)

text \<open>
  Claim C8, as the code has it. \<^verbatim>\<open>saveSettings\<close> stores, for each auto-pattern, the
  template together with the source text of the compiled regular expression and the name
  position, and each operation that changes the auto-patterns or their switch ends with the
  storage that \<^verbatim>\<open>saveSettings\<close> writes for the new manager. Loading rebuilds each matcher
  from the stored source text. When the runtime compiles each stored source text to the
  regular expression it came from, the default template compiles and the stored manual
  patterns compile, loading what was saved gives the same list of auto-patterns and the
  same switch, except that an empty list comes back as the default template alone.
\<close>

theorem save_then_load:
  assumes "createAutoPattern env '':name.*'' = Inr dflt"
    and "\<forall>p\<in>set (autoPatterns m). RegExp env (source env (regex p)) = Some (regex p)"
    and "\<forall>sp\<in>set (case storage_domainPatterns w of None \<Rightarrow> [] | Some sps \<Rightarrow> sps).
           RegExp env (patternStr sp) \<noteq> None"
  shows "storage_autoPatterns (saveSettings env m w) =
           Some (map (\<lambda>p. \<lparr>sa_template = template p, regexStr = source env (regex p),
                             sa_namePosition = namePosition p\<rparr>) (autoPatterns m)) \<and>
         snd (loadPatternsFromStorage env (saveSettings env m w) fresh) = None \<and>
         autoPatterns (fst (loadPatternsFromStorage env (saveSettings env m w) fresh)) =
           (if autoPatterns m = [] then [dflt] else autoPatterns m) \<and>
         enableAutoPatterns (fst (loadPatternsFromStorage env (saveSettings env m w) fresh)) =
           enableAutoPatterns m \<and>
         (fst (addAutoPattern env t (n, v)) \<longrightarrow>
            snd (snd (addAutoPattern env t (n, v))) =
              saveSettings env (fst (snd (addAutoPattern env t (n, v)))) v) \<and>
         (fst (removeAutoPattern env u (n, v)) \<longrightarrow>
            snd (snd (removeAutoPattern env u (n, v))) =
              saveSettings env (fst (snd (removeAutoPattern env u (n, v)))) v) \<and>
         snd (setAutoPatterns env enabled (n, v)) =
           saveSettings env (fst (setAutoPatterns env enabled (n, v))) v"
proof -
  let ?w = "saveSettings env m w"
  let ?stored = "map (\<lambda>p. \<lparr>sa_template = template p, regexStr = source env (regex p),
                             sa_namePosition = namePosition p\<rparr>) (autoPatterns m)"
  have st: "storage_autoPatterns ?w = Some ?stored"
    "storage_enableAutoPatterns ?w = Some (enableAutoPatterns m)"
    "storage_domainPatterns ?w = storage_domainPatterns w"
    by (simp_all add: saveSettings_def)
  have dp: "storage_domainPatterns ?w = None \<or>
         (\<exists>sps dps. storage_domainPatterns ?w = Some sps \<and>
                    those (map (loadDomainPattern env) sps) = Some dps)"
  proof (cases "storage_domainPatterns w")
    case None
    then show ?thesis by (simp add: st)
  next
    case (Some sps)
    have "those (map (loadDomainPattern env) sps) \<noteq> None"
      by (rule those_map_not_None) (use assms(3) Some in \<open>auto simp: loadDomainPattern_def\<close>)
    with Some show ?thesis by (auto simp: st)
  qed
  have reload: "those (map (loadAutoPattern env) ?stored) = Some (autoPatterns m)"
    using assms(2) by (rule load_saved_autoPatterns)
  have aps: "autoPatterns (fst (loadPatternsFromStorage env ?w fresh)) =
           (if autoPatterns m = [] then [dflt] else autoPatterns m)"
  proof (cases "autoPatterns m")
    case Nil
    then show ?thesis
      unfolding load_when_manual_patterns_compile(2)[OF assms(1) dp] st by simp
  next
    case (Cons p ps)
    then obtain sa sas where s: "?stored = sa # sas" by auto
    show ?thesis
      unfolding load_when_manual_patterns_compile(2)[OF assms(1) dp] st
      using reload Cons unfolding s by simp
  qed
  have add: "fst (addAutoPattern env t (n, v)) \<longrightarrow>
            snd (snd (addAutoPattern env t (n, v))) =
              saveSettings env (fst (snd (addAutoPattern env t (n, v)))) v"
    by (auto simp: addAutoPattern_def Let_def split: sum.splits)
  have remove: "fst (removeAutoPattern env u (n, v)) \<longrightarrow>
            snd (snd (removeAutoPattern env u (n, v))) =
              saveSettings env (fst (snd (removeAutoPattern env u (n, v)))) v"
    by (auto simp: removeAutoPattern_def Let_def saveSettings_def clearUrlCache_def)
  have toggle: "snd (setAutoPatterns env enabled (n, v)) =
           saveSettings env (fst (setAutoPatterns env enabled (n, v))) v"
    by (simp add: setAutoPatterns_def Let_def)
  show ?thesis
    using st(1) aps load_when_manual_patterns_compile(1,3)[OF assms(1) dp, of fresh] st(2)
      add remove toggle
    by simp
qed

lemma with_three_storage:
  "storage_domainPatterns (snd with_three) =
     Some [\<lparr>patternStr = gitlab_text, sp_groupName = ''GitLab'', sp_color = Some ''orange''\<rparr>,
           \<lparr>patternStr = github_text, sp_groupName = ''GitHub'', sp_color = Some ''blue''\<rparr>,
           \<lparr>patternStr = ''github'', sp_groupName = ''Hub'', sp_color = None\<rparr>]"
  by (simp add: with_three_def addPattern_def github_text_def gitlab_text_def js_simps
      clearUrlCache_def savePatterns_def started_eq Let_def)

theorem save_then_load_witness:
  "autoPatterns (fst (snd added_example)) =
     [\<lparr>template = '':name.*'',
       regex = \<lparr>from_start = True, atoms = [Name, Chr CHR ''.'', NonDots], to_end = True\<rparr>,
       namePosition = 1\<rparr>,
      \<lparr>template = '':name.example.com'', regex = one_label_regexp, namePosition = 1\<rparr>] \<and>
   RegExp js gitlab_text \<noteq> None \<and> RegExp js github_text \<noteq> None \<and>
   RegExp js ''github'' \<noteq> None \<and>
   fst added_example \<and>
   fst removed_default \<and>
   snd (snd added_example) = saveSettings js (fst (snd added_example)) new_browser \<and>
   snd (snd removed_default) = saveSettings js (fst (snd removed_default)) new_browser \<and>
   storage_autoPatterns (saveSettings js (fst (snd added_example)) (snd with_three)) =
     Some [\<lparr>sa_template = '':name.*'', regexStr = ''^([^.]+)'' @ CHR 0x5C # ''.[^.]+$'',
            sa_namePosition = 1\<rparr>,
           \<lparr>sa_template = '':name.example.com'',
            regexStr = ''^([^.]+)'' @ CHR 0x5C # ''.example'' @ CHR 0x5C # ''.com$'',
            sa_namePosition = 1\<rparr>] \<and>
   snd (loadPatternsFromStorage js
          (saveSettings js (fst (snd added_example)) (snd with_three)) new_manager) = None \<and>
   autoPatterns (fst (loadPatternsFromStorage js
          (saveSettings js (fst (snd added_example)) (snd with_three)) new_manager)) =
     autoPatterns (fst (snd added_example)) \<and>
   enableAutoPatterns (fst (loadPatternsFromStorage js
          (saveSettings js (fst (snd added_example)) (snd with_three)) new_manager))"
proof -
  let ?m = "fst (snd added_example)"
  have m: "autoPatterns ?m =
     [\<lparr>template = '':name.*'',
       regex = \<lparr>from_start = True, atoms = [Name, Chr CHR ''.'', NonDots], to_end = True\<rparr>,
       namePosition = 1\<rparr>,
      \<lparr>template = '':name.example.com'', regex = one_label_regexp, namePosition = 1\<rparr>]"
    and en: "enableAutoPatterns ?m"
    by (simp_all add: added_example_eq started_eq)
  have 2: "\<forall>p\<in>set (autoPatterns ?m). RegExp js (source js (regex p)) = Some (regex p)"
  proof
    fix p assume "p \<in> set (autoPatterns ?m)"
    then have "\<exists>s. RegExp_frag s = Some (regex p)"
      using default_pattern one_label_pattern unfolding m
      by (auto simp: createAutoPattern_def js_def split: option.splits)
    then show "RegExp js (source js (regex p)) = Some (regex p)"
      by (auto simp: js_def dest: RegExp_frag_source)
  qed
  have c: "RegExp js gitlab_text \<noteq> None" "RegExp js github_text \<noteq> None"
    "RegExp js ''github'' \<noteq> None"
    by (simp_all add: gitlab_text_def github_text_def js_simps)
  have 3: "\<forall>sp\<in>set (case storage_domainPatterns (snd with_three) of
                        None \<Rightarrow> [] | Some sps \<Rightarrow> sps).
             RegExp js (patternStr sp) \<noteq> None"
    unfolding with_three_storage using c by simp
  have w: "snd (snd added_example) = saveSettings js ?m new_browser"
    by (simp add: added_example_eq)
  have r: "fst removed_default"
    by (simp add: removed_default_def removeAutoPattern_def started_eq Let_def)
  have a: "fst added_example"
    by (simp add: added_example_eq)
  have strs: "map (\<lambda>p. \<lparr>sa_template = template p, regexStr = source js (regex p),
                          sa_namePosition = namePosition p\<rparr>) (autoPatterns ?m) =
     [\<lparr>sa_template = '':name.*'', regexStr = ''^([^.]+)'' @ CHR 0x5C # ''.[^.]+$'',
            sa_namePosition = 1\<rparr>,
           \<lparr>sa_template = '':name.example.com'',
            regexStr = ''^([^.]+)'' @ CHR 0x5C # ''.example'' @ CHR 0x5C # ''.com$'',
            sa_namePosition = 1\<rparr>]"
    unfolding m by (simp add: one_label_regexp_def js_def source_frag_def syntax_char_def)
  have ne: "autoPatterns ?m \<noteq> []" unfolding m by simp
  show ?thesis
    using save_then_load[OF default_pattern 2 3, where fresh = new_manager and n = started
        and v = new_browser and t = "'':name.example.com''" and u = "'':name.*''"
        and enabled = False]
      m en a r c ne
    unfolding strs added_example_def[symmetric] removed_default_def[symmetric]
    by simp
qed

text \<open>
  The claim as it was stated fails for the empty list: after the default template has
  been removed, the stored list is empty, and loading it brings the default back.
\<close>

theorem empty_list_reloads_default:
  "autoPatterns (fst (snd removed_default)) = [] \<and>
   storage_autoPatterns (snd (snd removed_default)) = Some [] \<and>
   getAutoPatternTemplates
     (fst (loadPatternsFromStorage js (snd (snd removed_default)) (fst (snd removed_default))))
     = ['':name.*'']"
  by (simp add: removed_default_def removeAutoPattern_def started_eq Let_def clearUrlCache_def
      saveSettings_def new_browser_def loadPatternsFromStorage_def default_pattern
      getAutoPatternTemplates_def)

end
